theory Spec2Isabelle
  imports Main
begin

section \<open>The Select and MultiSelect widgets of src/component/select.tsx\<close>

text \<open>
  The file defines two React components, \<open>Select\<close> and \<open>MultiSelect\<close>, whose event
  handlers read the props and the state of the render that created them, call
  \<open>setInternalOpen\<close> and \<open>setInputValue\<close>, and invoke the caller's callbacks.
  A handler is modelled as a function from the props and the state it closes over (and the
  argument of the event) to the state after the batched updates, paired with the list of
  effects it performed, in program order.
\<close>

subsection \<open>JavaScript strings\<close>

text \<open>
  A string is a list of code units; the model covers the code units below 256, one
  \<^typ>\<open>char\<close> each, so \<open>length\<close> is \<open>String.prototype.length\<close>.
  \<open>trim\<close> removes the white space and line terminators of that range from both ends
  (TAB, LF, VT, FF, CR, SP, NBSP). \<open>toLowerCase\<close> maps \<open>A..Z\<close> and the capital
  letters U+00C0..U+00DE (without U+00D7) to the code unit 32 above, which is the same code
  unit with bit 5 set, and leaves every other code unit of the range as it is.
  \<open>includes_str s t\<close> is \<open>s.includes(t)\<close>.
\<close>

definition isWhiteSpace :: "char \<Rightarrow> bool" where
  "isWhiteSpace c = ((of_char c :: nat) \<in> {9, 10, 11, 12, 13, 32, 160})"

definition trim :: "string \<Rightarrow> string" where
  "trim s = rev (dropWhile isWhiteSpace (rev (dropWhile isWhiteSpace s)))"

definition lowerChar :: "char \<Rightarrow> char" where
  "lowerChar c = (let n = (of_char c :: nat) in
     if (65 \<le> n \<and> n \<le> 90) \<or> (192 \<le> n \<and> n \<le> 222 \<and> n \<noteq> 215)
     then (case c of Char b0 b1 b2 b3 b4 b5 b6 b7 \<Rightarrow> Char b0 b1 b2 b3 b4 True b6 b7)
     else c)"

definition toLowerCase :: "string \<Rightarrow> string" where
  "toLowerCase s = map lowerChar s"

fun startsWith :: "string \<Rightarrow> string \<Rightarrow> bool" where
  "startsWith s [] = True"
| "startsWith [] (c # t) = False"
| "startsWith (d # s) (c # t) = (d = c \<and> startsWith s t)"

fun includes_str :: "string \<Rightarrow> string \<Rightarrow> bool" where
  "includes_str [] t = (t = [])"
| "includes_str (c # s) t = (startsWith (c # s) t \<or> includes_str s t)"

subsection \<open>Props, state, children and effects\<close>

text \<open>
  \<open>children\<close> holds the children of the \<open>SelectContent\<close> child after
  \<open>React.Children.toArray\<close>, or \<open>None\<close> when the widget has no \<open>SelectContent\<close>
  child. An element child carries \<open>SelectItemProps\<close>, as the type guard
  \<open>isValidElement<SelectItemProps>\<close> of the source asserts: its \<open>value\<close> and its own
  children, which are either one string or other content. Any other child (a text node) is
  a \<open>NonElement\<close>.

  The optional callbacks \<open>onOpenChange\<close> and \<open>onCreateOption\<close> are represented by
  whether the caller supplied them; \<open>onValueChange\<close> is required. \<open>maxLength\<close> is
  \<open>None\<close> when the prop is undefined and an integer otherwise (fractions and NaN are
  left out). \<open>value_prop\<close> is the prop \<open>value\<close>: a string for \<open>Select\<close>, a string
  list for \<open>MultiSelect\<close>. The props that no handler reads (\<open>name\<close>, \<open>required\<close>,
  \<open>defaultValue\<close>, \<open>placeholder\<close>) are left out.

  An effect is a call of one of the caller's callbacks, \<open>preventDefault\<close> or
  \<open>stopPropagation\<close> on the event, or the deferred focus of the text field
  (\<open>setTimeout(() => inputRef.current?.focus(), 0)\<close>).
\<close>

datatype label = PlainText string | RichContent

datatype child = Element string label | NonElement string

fun isValidElement :: "child \<Rightarrow> bool" where
  "isValidElement (Element v l) = True"
| "isValidElement (NonElement x) = False"

record state =
  internalOpen :: bool
  inputValue :: string

record 'v props =
  children :: "child list option"
  value_prop :: 'v
  disabled :: bool
  onOpenChange :: bool
  defaultOpen :: bool
  creatable :: bool
  onCreateOption :: bool
  maxLength :: "int option"

datatype 'v effect =
    OnValueChange 'v
  | OnCreateOption string
  | OnOpenChange bool
  | PreventDefault
  | StopPropagation
  | FocusInput

type_synonym 'v result = "state \<times> 'v effect list"

text \<open>\<open>useState(defaultOpen)\<close> and \<open>useState('')\<close>.\<close>

definition initialState :: "'v props \<Rightarrow> state" where
  "initialState p = \<lparr>internalOpen = defaultOpen p, inputValue = ''''\<rparr>"

text \<open>The guard \<open>maxLength && s.length > maxLength\<close>: 0 and undefined are falsy.\<close>

definition exceedsMaxLength :: "int option \<Rightarrow> string \<Rightarrow> bool" where
  "exceedsMaxLength m s = (case m of None \<Rightarrow> False | Some n \<Rightarrow> n \<noteq> 0 \<and> n < int (length s))"

text \<open>
  The label an option is filtered by:
  \<open>typeof child.props.children === 'string' ? child.props.children : child.props.value\<close>.
\<close>

definition itemLabel :: "string \<Rightarrow> label \<Rightarrow> string" where
  "itemLabel v l = (case l of PlainText t \<Rightarrow> t | RichContent \<Rightarrow> v)"

definition labelIncludes :: "string \<Rightarrow> label \<Rightarrow> string \<Rightarrow> bool" where
  "labelIncludes v l text = includes_str (toLowerCase (itemLabel v l)) (toLowerCase text)"

text \<open>The callback of \<open>some\<close> in \<open>handleKeyDown\<close> (both components).\<close>

definition hasMatch :: "child list \<Rightarrow> string \<Rightarrow> bool" where
  "hasMatch cs text =
     list_ex (\<lambda>c. case c of NonElement _ \<Rightarrow> False | Element v l \<Rightarrow> labelIncludes v l text) cs"

text \<open>The callback of \<open>filter\<close> in both \<open>filteredChildren\<close>.\<close>

definition keepChild :: "string \<Rightarrow> child \<Rightarrow> bool" where
  "keepChild text c = (case c of NonElement _ \<Rightarrow> True | Element v l \<Rightarrow> labelIncludes v l text)"

subsection \<open>Handlers shared by both components\<close>

text \<open>\<open>handleOpenChange\<close> (lines 91-98 and, word for word, 398-405).\<close>

definition handleOpenChange :: "'v props \<Rightarrow> state \<Rightarrow> bool \<Rightarrow> 'v result" where
  "handleOpenChange p s opn =
     (if disabled p then (s, [])
      else let s1 = s\<lparr>internalOpen := opn\<rparr>;
               fx = (if onOpenChange p then [OnOpenChange opn] else [])
           in (if \<not> opn then s1\<lparr>inputValue := ''''\<rparr> else s1, fx))"

text \<open>
  \<open>handleClickOutside\<close> (lines 158-162, 468-472), for a mounted root: the argument says
  whether the root contains the event target. The effect attaches the listener only while
  \<open>isOpen\<close> holds. The effect depends on \<open>isOpen\<close> alone, so the listener is the
  closure of the render in which \<open>isOpen\<close> last changed, and \<open>p\<close> stands for the
  props of that render.
\<close>

definition handleClickOutside :: "'v props \<Rightarrow> state \<Rightarrow> bool \<Rightarrow> 'v result" where
  "handleClickOutside p s targetInRoot =
     (if \<not> targetInRoot then handleOpenChange p s False else (s, []))"

definition documentMouseDown :: "'v props \<Rightarrow> state \<Rightarrow> bool \<Rightarrow> 'v result" where
  "documentMouseDown p s targetInRoot =
     (if internalOpen s then handleClickOutside p s targetInRoot else (s, []))"

text \<open>
  \<open>handleClick\<close> of \<open>SelectItem\<close> (lines 352-358): the two optional callbacks it was
  cloned with, and what happens when neither is there.
\<close>

definition SelectItem_handleClick ::
  "(string \<Rightarrow> 'r) option \<Rightarrow> (string \<Rightarrow> 'r) option \<Rightarrow> 'r \<Rightarrow> string \<Rightarrow> 'r" where
  "SelectItem_handleClick onToggleValue onValueChange nothing v =
     (case onToggleValue of
        Some f \<Rightarrow> f v
      | None \<Rightarrow> (case onValueChange of Some g \<Rightarrow> g v | None \<Rightarrow> nothing))"

subsection \<open>Select\<close>

definition Select_handleValueChange :: "string props \<Rightarrow> state \<Rightarrow> string \<Rightarrow> string result" where
  "Select_handleValueChange p s newValue =
     (if exceedsMaxLength (maxLength p) newValue then (s, [])
      else let (s1, fx) = handleOpenChange p s False
           in (s1\<lparr>inputValue := ''''\<rparr>, OnValueChange newValue # fx))"

definition Select_handleInputChange :: "string props \<Rightarrow> state \<Rightarrow> string \<Rightarrow> string result" where
  "Select_handleInputChange p s newInputValue =
     (if exceedsMaxLength (maxLength p) newInputValue then (s, [])
      else let s1 = s\<lparr>inputValue := newInputValue\<rparr>
           in if \<not> internalOpen s then handleOpenChange p s1 True else (s1, []))"

definition Select_handleCreateValue :: "string props \<Rightarrow> state \<Rightarrow> string result" where
  "Select_handleCreateValue p s =
     (let trimmedValue = trim (inputValue s)
      in if trimmedValue \<noteq> [] then
           (if exceedsMaxLength (maxLength p) trimmedValue then (s, [])
            else let (s1, fx) = Select_handleValueChange p s trimmedValue
                 in (s1, (if onCreateOption p then [OnCreateOption trimmedValue] else []) @ fx))
         else (s, []))"

definition Select_handleKeyDown :: "string props \<Rightarrow> state \<Rightarrow> string \<Rightarrow> string result" where
  "Select_handleKeyDown p s key =
     (if \<not> creatable p \<or> trim (inputValue s) = [] then (s, [])
      else if key = ''Enter'' then
        (case children p of
           None \<Rightarrow> (s, [PreventDefault])
         | Some cs \<Rightarrow>
             if \<not> hasMatch cs (inputValue s)
             then let (s1, fx) = Select_handleCreateValue p s in (s1, PreventDefault # fx)
             else (s, [PreventDefault]))
      else (s, []))"

text \<open>\<open>onToggle\<close> (line 194) and \<open>handleClick\<close> of \<open>SelectTrigger\<close> (lines 242-247).\<close>

definition Select_onToggle :: "string props \<Rightarrow> state \<Rightarrow> string result" where
  "Select_onToggle p s = handleOpenChange p s (\<not> internalOpen s)"

definition SelectTrigger_handleClick :: "string props \<Rightarrow> state \<Rightarrow> string result" where
  "SelectTrigger_handleClick p s =
     (let (s1, fx) = Select_onToggle p s
      in (s1, fx @ (if creatable p \<and> internalOpen s then [FocusInput] else [])))"

text \<open>
  \<open>filterValue: creatable ? inputValue : undefined\<close> (line 202), and
  \<open>filteredChildren\<close> of \<open>SelectContent\<close> (lines 297-303).
\<close>

definition Select_filterValue :: "string props \<Rightarrow> state \<Rightarrow> string option" where
  "Select_filterValue p s = (if creatable p then Some (inputValue s) else None)"

definition SelectContent_filteredChildren :: "string option \<Rightarrow> child list \<Rightarrow> child list" where
  "SelectContent_filteredChildren filterValue cs =
     (case filterValue of
        None \<Rightarrow> cs
      | Some text \<Rightarrow> if text \<noteq> [] then filter (keepChild text) cs else cs)"

text \<open>The text the creatable trigger shows (line 258).\<close>

definition SelectTrigger_inputText :: "string props \<Rightarrow> state \<Rightarrow> string" where
  "SelectTrigger_inputText p s = (if internalOpen s then inputValue s else value_prop p)"

text \<open>
  The events the rendered tree can deliver. The text field exists in creatable mode only
  (line 249); \<open>SelectContent\<close> renders nothing while closed (line 294), its items are the
  filtered children, and the create row needs an empty result, \<open>creatable\<close> and a
  non-empty filter (line 323).
\<close>

datatype Select_event =
    TriggerClick
  | InputChange string
  | KeyDown string
  | ItemClick string
  | CreateRowClick
  | MouseDown bool

definition Select_visible :: "string props \<Rightarrow> state \<Rightarrow> child list" where
  "Select_visible p s =
     (case children p of
        None \<Rightarrow> []
      | Some cs \<Rightarrow>
          if internalOpen s then SelectContent_filteredChildren (Select_filterValue p s) cs
          else [])"

definition Select_createRowShown :: "string props \<Rightarrow> state \<Rightarrow> bool" where
  "Select_createRowShown p s =
     (children p \<noteq> None \<and> internalOpen s \<and> Select_visible p s = [] \<and> creatable p
      \<and> inputValue s \<noteq> [])"

definition Select_step :: "string props \<Rightarrow> state \<Rightarrow> Select_event \<Rightarrow> string result" where
  "Select_step p s e =
     (case e of
        TriggerClick \<Rightarrow> SelectTrigger_handleClick p s
      | InputChange text \<Rightarrow> if creatable p then Select_handleInputChange p s text else (s, [])
      | KeyDown key \<Rightarrow> if creatable p then Select_handleKeyDown p s key else (s, [])
      | ItemClick v \<Rightarrow>
          if list_ex (\<lambda>c. case c of Element w _ \<Rightarrow> w = v | NonElement _ \<Rightarrow> False)
               (Select_visible p s)
          then SelectItem_handleClick None (Some (Select_handleValueChange p s)) (s, []) v
          else (s, [])
      | CreateRowClick \<Rightarrow>
          if Select_createRowShown p s then Select_handleCreateValue p s else (s, [])
      | MouseDown targetInRoot \<Rightarrow> documentMouseDown p s targetInRoot)"

subsection \<open>MultiSelect\<close>

text \<open>The array \<open>newValue\<close> of \<open>handleToggleValue\<close> (lines 408-410).\<close>

definition MultiSelect_newValue :: "string list \<Rightarrow> string \<Rightarrow> string list" where
  "MultiSelect_newValue v selectedValue =
     (if selectedValue \<in> set v then filter (\<lambda>w. w \<noteq> selectedValue) v
      else v @ [selectedValue])"

definition MultiSelect_handleToggleValue ::
  "string list props \<Rightarrow> state \<Rightarrow> string \<Rightarrow> string list result" where
  "MultiSelect_handleToggleValue p s selectedValue =
     (s\<lparr>inputValue := ''''\<rparr>, [OnValueChange (MultiSelect_newValue (value_prop p) selectedValue)])"

definition MultiSelect_handleRemoveValue ::
  "string list props \<Rightarrow> state \<Rightarrow> string \<Rightarrow> string list result" where
  "MultiSelect_handleRemoveValue p s selectedValue =
     (s, [StopPropagation, OnValueChange (filter (\<lambda>w. w \<noteq> selectedValue) (value_prop p))])"

definition MultiSelect_handleCreateValue :: "string list props \<Rightarrow> state \<Rightarrow> string list result" where
  "MultiSelect_handleCreateValue p s =
     (let trimmedValue = trim (inputValue s)
      in if trimmedValue \<noteq> [] \<and> trimmedValue \<notin> set (value_prop p) then
           (if exceedsMaxLength (maxLength p) trimmedValue then (s, [])
            else (s\<lparr>inputValue := ''''\<rparr>,
                  (if onCreateOption p then [OnCreateOption trimmedValue] else [])
                  @ [OnValueChange (value_prop p @ [trimmedValue]), FocusInput]))
         else (s, []))"

definition MultiSelect_handleInputChange ::
  "string list props \<Rightarrow> state \<Rightarrow> string \<Rightarrow> string list result" where
  "MultiSelect_handleInputChange p s newValue =
     (if exceedsMaxLength (maxLength p) newValue then (s, [])
      else (s\<lparr>inputValue := newValue\<rparr>, []))"

definition MultiSelect_handleKeyDown ::
  "string list props \<Rightarrow> state \<Rightarrow> string \<Rightarrow> string list result" where
  "MultiSelect_handleKeyDown p s key =
     (if \<not> creatable p \<or> trim (inputValue s) = [] then (s, [])
      else if key = ''Enter'' then
        (case children p of
           None \<Rightarrow> (s, [PreventDefault])
         | Some cs \<Rightarrow>
             if \<not> hasMatch cs (inputValue s)
             then let (s1, fx) = MultiSelect_handleCreateValue p s in (s1, PreventDefault # fx)
             else (s, [PreventDefault]))
      else (s, []))"

definition MultiSelect_handleContainerClick ::
  "string list props \<Rightarrow> state \<Rightarrow> string list result" where
  "MultiSelect_handleContainerClick p s =
     (let (s1, fx) = (if \<not> internalOpen s then handleOpenChange p s True else (s, []))
      in (s1, fx @ (if creatable p then [FocusInput] else [])))"

definition MultiSelect_handleClearAll :: "string list props \<Rightarrow> state \<Rightarrow> string list result" where
  "MultiSelect_handleClearAll p s = (s, [StopPropagation, OnValueChange []])"

text \<open>\<open>onFocus\<close> of the text field (lines 560-564).\<close>

definition MultiSelect_onFocus :: "string list props \<Rightarrow> state \<Rightarrow> string list result" where
  "MultiSelect_onFocus p s = (if \<not> internalOpen s then handleOpenChange p s True else (s, []))"

text \<open>\<open>filteredChildren\<close> of \<open>MultiSelect\<close> (lines 511-517).\<close>

definition MultiSelect_filteredChildren :: "string list props \<Rightarrow> state \<Rightarrow> child list" where
  "MultiSelect_filteredChildren p s =
     (case children p of
        None \<Rightarrow> []
      | Some cs \<Rightarrow> if inputValue s \<noteq> [] then filter (keepChild (inputValue s)) cs else cs)"

text \<open>
  The events the rendered tree can deliver. The text field is rendered in creatable mode
  only (line 553); the list is rendered while open and with a \<open>SelectContent\<close> child
  (line 584); a chip exists for each selected value, the clear icon when there is one
  (line 574); the create row under the conditions of line 600.
\<close>

datatype MultiSelect_event =
    ContainerClick
  | MItemClick string
  | RemoveClick string
  | ClearAllClick
  | MInputChange string
  | MKeyDown string
  | InputFocus
  | MCreateRowClick
  | MMouseDown bool

definition MultiSelect_listShown :: "string list props \<Rightarrow> state \<Rightarrow> bool" where
  "MultiSelect_listShown p s = (internalOpen s \<and> children p \<noteq> None)"

definition MultiSelect_createRowShown :: "string list props \<Rightarrow> state \<Rightarrow> bool" where
  "MultiSelect_createRowShown p s =
     (MultiSelect_listShown p s \<and> MultiSelect_filteredChildren p s = [] \<and> creatable p
      \<and> trim (inputValue s) \<noteq> [] \<and> trim (inputValue s) \<notin> set (value_prop p))"

definition MultiSelect_step ::
  "string list props \<Rightarrow> state \<Rightarrow> MultiSelect_event \<Rightarrow> string list result" where
  "MultiSelect_step p s e =
     (case e of
        ContainerClick \<Rightarrow> MultiSelect_handleContainerClick p s
      | MItemClick v \<Rightarrow>
          if MultiSelect_listShown p s
             \<and> list_ex (\<lambda>c. case c of Element w _ \<Rightarrow> w = v | NonElement _ \<Rightarrow> False)
                  (MultiSelect_filteredChildren p s)
          then SelectItem_handleClick (Some (MultiSelect_handleToggleValue p s)) None (s, []) v
          else (s, [])
      | RemoveClick v \<Rightarrow>
          if v \<in> set (value_prop p) then MultiSelect_handleRemoveValue p s v else (s, [])
      | ClearAllClick \<Rightarrow>
          if value_prop p \<noteq> [] then MultiSelect_handleClearAll p s else (s, [])
      | MInputChange text \<Rightarrow>
          if creatable p then MultiSelect_handleInputChange p s text else (s, [])
      | MKeyDown key \<Rightarrow> if creatable p then MultiSelect_handleKeyDown p s key else (s, [])
      | InputFocus \<Rightarrow> if creatable p then MultiSelect_onFocus p s else (s, [])
      | MCreateRowClick \<Rightarrow>
          if MultiSelect_createRowShown p s then MultiSelect_handleCreateValue p s else (s, [])
      | MMouseDown targetInRoot \<Rightarrow> documentMouseDown p s targetInRoot)"

subsection \<open>The outside-click listener across renders\<close>

text \<open>
  The effect of lines 157-171 (and 467-481) has the dependency list \<open>[isOpen]\<close>. It runs
  after the mount and after every render in which \<open>isOpen\<close> differs from its value at
  the previous run; its cleanup removes the listener, and it attaches a new one only while
  \<open>isOpen\<close> holds. The attached \<open>handleClickOutside\<close> calls the
  \<open>handleOpenChange\<close> of that render, so it reads the props of that render until the
  effect runs again. A mounted widget is therefore its hook state together with the props
  the attached listener closes over, if one is attached.

  An event is dispatched with the props of the current render; its handler runs, the
  component renders again with these props, and the effect runs if \<open>isOpen\<close> changed.
  A pointer-down on the document goes to the attached listener, not to a handler of the
  current render. A run is a list of events, each with the props of the render current
  when it arrives, since the caller may change the props between events.
\<close>

record 'v widget =
  hooks :: state
  listener :: "'v props option"

definition mount :: "'v props \<Rightarrow> 'v widget" where
  "mount p = \<lparr>hooks = initialState p, listener = (if defaultOpen p then Some p else None)\<rparr>"

definition useEffect_listener ::
  "'v props \<Rightarrow> bool \<Rightarrow> state \<Rightarrow> 'v props option \<Rightarrow> 'v props option" where
  "useEffect_listener p isOpenBefore s l =
     (if internalOpen s = isOpenBefore then l
      else if internalOpen s then Some p else None)"

definition listenerMouseDown :: "'v widget \<Rightarrow> bool \<Rightarrow> 'v result" where
  "listenerMouseDown w targetInRoot =
     (case listener w of
        None \<Rightarrow> (hooks w, [])
      | Some lp \<Rightarrow> handleClickOutside lp (hooks w) targetInRoot)"

definition listenerDisabled :: "'v widget \<Rightarrow> bool" where
  "listenerDisabled w = (case listener w of None \<Rightarrow> True | Some lp \<Rightarrow> disabled lp)"

definition Select_dispatch ::
  "string props \<Rightarrow> string widget \<Rightarrow> Select_event \<Rightarrow> string widget \<times> string effect list" where
  "Select_dispatch p w e =
     (let (s1, fx) = (case e of
                        MouseDown targetInRoot \<Rightarrow> listenerMouseDown w targetInRoot
                      | _ \<Rightarrow> Select_step p (hooks w) e)
      in (\<lparr>hooks = s1,
           listener = useEffect_listener p (internalOpen (hooks w)) s1 (listener w)\<rparr>, fx))"

definition MultiSelect_dispatch ::
  "string list props \<Rightarrow> string list widget \<Rightarrow> MultiSelect_event
   \<Rightarrow> string list widget \<times> string list effect list" where
  "MultiSelect_dispatch p w e =
     (let (s1, fx) = (case e of
                        MMouseDown targetInRoot \<Rightarrow> listenerMouseDown w targetInRoot
                      | _ \<Rightarrow> MultiSelect_step p (hooks w) e)
      in (\<lparr>hooks = s1,
           listener = useEffect_listener p (internalOpen (hooks w)) s1 (listener w)\<rparr>, fx))"

fun Select_widget_run ::
  "string widget \<Rightarrow> (string props \<times> Select_event) list \<Rightarrow> string widget" where
  "Select_widget_run w [] = w"
| "Select_widget_run w ((p, e) # rest) = Select_widget_run (fst (Select_dispatch p w e)) rest"

fun MultiSelect_widget_run ::
  "string list widget \<Rightarrow> (string list props \<times> MultiSelect_event) list
   \<Rightarrow> string list widget" where
  "MultiSelect_widget_run w [] = w"
| "MultiSelect_widget_run w ((p, e) # rest) =
     MultiSelect_widget_run (fst (MultiSelect_dispatch p w e)) rest"

subsection \<open>The widgets of \<open>SelectDemo\<close>\<close>

text \<open>
  Three of the widgets the demo component renders: the framework \<open>Select\<close>
  (lines 644-660), the creatable \<open>Select\<close> with \<open>maxLength={20}\<close> (lines 715-730)
  and the creatable tag \<open>MultiSelect\<close> with \<open>maxLength={15}\<close> (lines 745-758), with
  the values their state hooks start from.
\<close>

definition demoFramework :: "string props" where
  "demoFramework =
     \<lparr>children = Some [Element ''next'' (PlainText ''Next.js''),
                        Element ''react'' (PlainText ''React''),
                        Element ''vue'' (PlainText ''Vue''),
                        Element ''svelte'' (PlainText ''Svelte''),
                        Element ''angular'' (PlainText ''Angular'')],
      value_prop = [], disabled = False, onOpenChange = False, defaultOpen = False,
      creatable = False, onCreateOption = False, maxLength = None\<rparr>"

definition demoCustom :: "string props" where
  "demoCustom =
     \<lparr>children = Some [Element ''Option 1'' (PlainText ''Option 1''),
                        Element ''Option 2'' (PlainText ''Option 2''),
                        Element ''Option 3'' (PlainText ''Option 3'')],
      value_prop = [], disabled = False, onOpenChange = False, defaultOpen = False,
      creatable = True, onCreateOption = True, maxLength = Some 20\<rparr>"

definition demoTags :: "string list props" where
  "demoTags =
     \<lparr>children = Some [Element ''react'' (PlainText ''react''),
                        Element ''typescript'' (PlainText ''typescript''),
                        Element ''javascript'' (PlainText ''javascript''),
                        Element ''python'' (PlainText ''python''),
                        Element ''go'' (PlainText ''go'')],
      value_prop = [''react'', ''typescript''], disabled = False, onOpenChange = False,
      defaultOpen = False, creatable = True, onCreateOption = True, maxLength = Some 15\<rparr>"

section \<open>Properties\<close>

subsection \<open>Strings and the shared handlers\<close>

lemma startsWith_iff: "startsWith s t \<longleftrightarrow> (\<exists>b. s = t @ b)"
  by (induction s t rule: startsWith.induct) auto

text \<open>\<open>includes_str\<close> is the substring test.\<close>

lemma includes_str_iff: "includes_str s t \<longleftrightarrow> (\<exists>a b. s = a @ t @ b)"
proof (induction s)
  case Nil
  then show ?case by auto
next
  case (Cons c s)
  show ?case
  proof
    assume "includes_str (c # s) t"
    then consider "startsWith (c # s) t" | "includes_str s t" by auto
    then show "\<exists>a b. c # s = a @ t @ b"
    proof cases
      case 1
      then obtain b where "c # s = t @ b" by (auto simp: startsWith_iff)
      then have "c # s = [] @ t @ b" by simp
      then show ?thesis by blast
    next
      case 2
      then obtain a b where "s = a @ t @ b" using Cons.IH by blast
      then have "c # s = (c # a) @ t @ b" by simp
      then show ?thesis by blast
    qed
  next
    assume "\<exists>a b. c # s = a @ t @ b"
    then obtain a b where ab: "c # s = a @ t @ b" by blast
    show "includes_str (c # s) t"
    proof (cases a)
      case Nil
      with ab have "startsWith (c # s) t" by (auto simp: startsWith_iff)
      then show ?thesis by simp
    next
      case (Cons d a')
      with ab have "s = a' @ t @ b" by simp
      then have "includes_str s t" using Cons.IH by blast
      then show ?thesis by simp
    qed
  qed
qed

lemma trim_Nil: "trim [] = []"
  by (simp add: trim_def)

lemma exceeds_positive:
  "0 < m \<Longrightarrow> m < int (length text) \<Longrightarrow> exceedsMaxLength (Some m) text"
  by (simp add: exceedsMaxLength_def)

lemmas demo_defs = demoFramework_def demoCustom_def demoTags_def

lemmas string_defs = trim_def isWhiteSpace_def toLowerCase_def lowerChar_def

subsection \<open>C1: the length guard\<close>

text \<open>
  Claim C1, as stated, covers every value commit of \<open>MultiSelect\<close> too. There a value
  is committed by \<open>handleToggleValue\<close>, which has no length test: in the tag widget of
  the demo with \<open>maxLength\<close> 3, a click on the option \<open>python\<close> (six code units)
  calls \<open>onValueChange\<close> with the value appended.
\<close>

theorem C1_toggle_unguarded:
  "maxLength (demoTags\<lparr>maxLength := Some 3\<rparr>) = Some 3 \<and> (0::int) < 3
   \<and> 3 < int (length ''python'')
   \<and> MultiSelect_step (demoTags\<lparr>maxLength := Some 3\<rparr>)
        \<lparr>internalOpen = True, inputValue = []\<rparr> (MItemClick ''python'')
      = (\<lparr>internalOpen = True, inputValue = []\<rparr>,
         [OnValueChange [''react'', ''typescript'', ''python'']])"
  by (simp add: demo_defs MultiSelect_step_def MultiSelect_listShown_def
      MultiSelect_filteredChildren_def SelectItem_handleClick_def
      MultiSelect_handleToggleValue_def MultiSelect_newValue_def)

text \<open>
  Claim C1, amended. With a positive \<open>maxLength\<close>, an input edit (\<open>handleInputChange\<close>
  of either component), a value commit of \<open>Select\<close> (\<open>handleValueChange\<close>) and a
  creation (\<open>handleCreateValue\<close> of either component, called directly or through the
  Enter key) whose text is longer than \<open>maxLength\<close> leave the state as it is, hence
  \<open>inputValue\<close> and everything displayed from it, and call neither \<open>onValueChange\<close>
  nor \<open>onCreateOption\<close>; nothing is truncated, and the text the creatable trigger of
  \<open>Select\<close> displays is the same before and after. The only effect the Enter key can
  still have is \<open>preventDefault\<close>. The text of a creation is the trimmed
  \<open>inputValue\<close>.
\<close>

theorem C1_length_guard:
  assumes "maxLength p = Some m" and "maxLength q = Some m" and "0 < m"
    and "m < int (length text)"
  shows "Select_handleInputChange p s text = (s, [])
       \<and> Select_handleValueChange p s text = (s, [])
       \<and> SelectTrigger_inputText p (fst (Select_handleInputChange p s text))
           = SelectTrigger_inputText p s
       \<and> SelectTrigger_inputText p (fst (Select_handleValueChange p s text))
           = SelectTrigger_inputText p s
       \<and> (trim (inputValue s) = text \<longrightarrow>
            Select_handleCreateValue p s = (s, [])
          \<and> fst (Select_handleKeyDown p s key) = s
          \<and> set (snd (Select_handleKeyDown p s key)) \<subseteq> {PreventDefault})
       \<and> MultiSelect_handleInputChange q s text = (s, [])
       \<and> (trim (inputValue s) = text \<longrightarrow>
            MultiSelect_handleCreateValue q s = (s, [])
          \<and> fst (MultiSelect_handleKeyDown q s key) = s
          \<and> set (snd (MultiSelect_handleKeyDown q s key)) \<subseteq> {PreventDefault})"
proof -
  have ex: "exceedsMaxLength (maxLength p) text" "exceedsMaxLength (maxLength q) text"
    using assms by (simp_all add: exceeds_positive)
  have a: "Select_handleInputChange p s text = (s, [])"
    using ex by (simp add: Select_handleInputChange_def)
  have b: "Select_handleValueChange p s text = (s, [])"
    using ex by (simp add: Select_handleValueChange_def)
  have c: "Select_handleCreateValue p s = (s, [])" if "trim (inputValue s) = text"
    using ex that by (simp add: Select_handleCreateValue_def Let_def)
  have d: "fst (Select_handleKeyDown p s key) = s
         \<and> set (snd (Select_handleKeyDown p s key)) \<subseteq> {PreventDefault}"
    if "trim (inputValue s) = text"
    using c[OF that] by (simp add: Select_handleKeyDown_def split: option.splits)
  have e: "MultiSelect_handleInputChange q s text = (s, [])"
    using ex by (simp add: MultiSelect_handleInputChange_def)
  have f: "MultiSelect_handleCreateValue q s = (s, [])" if "trim (inputValue s) = text"
    using ex that by (simp add: MultiSelect_handleCreateValue_def Let_def)
  have g: "fst (MultiSelect_handleKeyDown q s key) = s
         \<and> set (snd (MultiSelect_handleKeyDown q s key)) \<subseteq> {PreventDefault}"
    if "trim (inputValue s) = text"
    using f[OF that] by (simp add: MultiSelect_handleKeyDown_def split: option.splits)
  show ?thesis using a b c d e f g by simp
qed

theorem C1_length_guard_witness:
  "maxLength demoCustom = Some 20 \<and> maxLength (demoTags\<lparr>maxLength := Some 20\<rparr>) = Some 20
   \<and> (0::int) < 20 \<and> 20 < int (length ''a tag that is much too long'')
   \<and> trim (inputValue \<lparr>internalOpen = True, inputValue = '' a tag that is much too long ''\<rparr>)
       = ''a tag that is much too long''
   \<and> Select_handleInputChange demoCustom
        \<lparr>internalOpen = True, inputValue = '' a tag that is much too long ''\<rparr>
        ''a tag that is much too long''
      = (\<lparr>internalOpen = True, inputValue = '' a tag that is much too long ''\<rparr>, [])
   \<and> Select_handleValueChange demoCustom
        \<lparr>internalOpen = True, inputValue = '' a tag that is much too long ''\<rparr>
        ''a tag that is much too long''
      = (\<lparr>internalOpen = True, inputValue = '' a tag that is much too long ''\<rparr>, [])
   \<and> Select_handleCreateValue demoCustom
        \<lparr>internalOpen = True, inputValue = '' a tag that is much too long ''\<rparr>
      = (\<lparr>internalOpen = True, inputValue = '' a tag that is much too long ''\<rparr>, [])
   \<and> MultiSelect_handleInputChange (demoTags\<lparr>maxLength := Some 20\<rparr>)
        \<lparr>internalOpen = True, inputValue = '' a tag that is much too long ''\<rparr>
        ''a tag that is much too long''
      = (\<lparr>internalOpen = True, inputValue = '' a tag that is much too long ''\<rparr>, [])
   \<and> MultiSelect_handleCreateValue (demoTags\<lparr>maxLength := Some 20\<rparr>)
        \<lparr>internalOpen = True, inputValue = '' a tag that is much too long ''\<rparr>
      = (\<lparr>internalOpen = True, inputValue = '' a tag that is much too long ''\<rparr>, [])"
proof -
  have h1: "maxLength demoCustom = Some 20" by (simp add: demo_defs)
  have h2: "maxLength (demoTags\<lparr>maxLength := Some 20\<rparr>) = Some 20" by simp
  have h3: "(0::int) < 20" by simp
  have h4: "20 < int (length ''a tag that is much too long'')" by simp
  have h5: "trim (inputValue \<lparr>internalOpen = True, inputValue = '' a tag that is much too long ''\<rparr>)
       = ''a tag that is much too long''" by (simp add: string_defs)
  show ?thesis
    using C1_length_guard [OF h1 h2 h3 h4,
        of "\<lparr>internalOpen = True, inputValue = '' a tag that is much too long ''\<rparr>" "''Enter''"]
      h1 h2 h4 h5 by simp
qed

subsection \<open>C2: toggling a value twice\<close>

lemma newValue_absent:
  "x \<notin> set v \<Longrightarrow> MultiSelect_newValue (MultiSelect_newValue v x) x = v"
proof -
  assume a: "x \<notin> set v"
  then have "filter (\<lambda>w. w \<noteq> x) v = v" by (induction v) auto
  with a show ?thesis by (simp add: MultiSelect_newValue_def)
qed

lemma newValue_present:
  "x \<in> set v \<Longrightarrow>
   MultiSelect_newValue (MultiSelect_newValue v x) x = filter (\<lambda>w. w \<noteq> x) v @ [x]"
  by (simp add: MultiSelect_newValue_def)

lemma newValue_twice_set: "set (MultiSelect_newValue (MultiSelect_newValue v x) x) = set v"
  by (cases "x \<in> set v") (auto simp: newValue_absent newValue_present)

text \<open>
  Claim C2, as stated, fails when the value is present: the first toggle removes every
  occurrence, the second appends one at the end. With the tags of the demo,
  \<open>[react, typescript]\<close> becomes \<open>[typescript, react]\<close>; an array with the value twice,
  \<open>[go, go]\<close>, becomes \<open>[go]\<close>.
\<close>

theorem C2_toggle_twice_reorders:
  "value_prop demoTags = [''react'', ''typescript'']
   \<and> MultiSelect_newValue (MultiSelect_newValue (value_prop demoTags) ''react'') ''react''
       = [''typescript'', ''react'']
   \<and> MultiSelect_newValue (MultiSelect_newValue (value_prop demoTags) ''react'') ''react''
       \<noteq> value_prop demoTags
   \<and> MultiSelect_newValue (MultiSelect_newValue [''go'', ''go''] ''go'') ''go'' = [''go'']"
  by (simp add: demo_defs MultiSelect_newValue_def)

text \<open>
  Claim C2, amended. Toggle a value \<open>x\<close> twice, the second time with the array the first
  toggle passed to \<open>onValueChange\<close>. If \<open>x\<close> is absent from the array, the first toggle
  appends it and the second gives the array back (add, then remove). If \<open>x\<close> is present,
  the first toggle removes every occurrence and the second appends \<open>x\<close> at the end. In both
  cases the result has the elements of the array, and it is the array itself exactly when
  \<open>x\<close> was absent or occurred once, as the last element. This holds for every array.
\<close>

theorem C2_toggle_twice:
  assumes "MultiSelect_handleToggleValue p s x = (s1, [OnValueChange v1])"
    and "MultiSelect_handleToggleValue (p\<lparr>value_prop := v1\<rparr>) s1 x = (s2, [OnValueChange v2])"
  shows "(x \<notin> set (value_prop p) \<longrightarrow> v1 = value_prop p @ [x] \<and> v2 = value_prop p)
       \<and> (x \<in> set (value_prop p) \<longrightarrow>
            v1 = filter (\<lambda>w. w \<noteq> x) (value_prop p)
          \<and> v2 = filter (\<lambda>w. w \<noteq> x) (value_prop p) @ [x])
       \<and> set v2 = set (value_prop p)
       \<and> (v2 = value_prop p \<longleftrightarrow>
            x \<notin> set (value_prop p) \<or> value_prop p = filter (\<lambda>w. w \<noteq> x) (value_prop p) @ [x])"
proof -
  have v1: "v1 = MultiSelect_newValue (value_prop p) x"
    using assms(1) by (simp add: MultiSelect_handleToggleValue_def)
  have v2: "v2 = MultiSelect_newValue (MultiSelect_newValue (value_prop p) x) x"
    using assms(2) v1 by (simp add: MultiSelect_handleToggleValue_def)
  have a: "x \<notin> set (value_prop p) \<longrightarrow> v1 = value_prop p @ [x] \<and> v2 = value_prop p"
    using v1 v2 newValue_absent by (simp add: MultiSelect_newValue_def)
  have b: "x \<in> set (value_prop p) \<longrightarrow>
            v1 = filter (\<lambda>w. w \<noteq> x) (value_prop p)
          \<and> v2 = filter (\<lambda>w. w \<noteq> x) (value_prop p) @ [x]"
    using v1 v2 newValue_present by (simp add: MultiSelect_newValue_def)
  have c: "set v2 = set (value_prop p)"
    using v2 by (simp add: newValue_twice_set)
  show ?thesis using a b c by auto
qed

theorem C2_toggle_twice_witness:
  "MultiSelect_handleToggleValue demoTags \<lparr>internalOpen = True, inputValue = ''py''\<rparr> ''python''
     = (\<lparr>internalOpen = True, inputValue = []\<rparr>,
        [OnValueChange [''react'', ''typescript'', ''python'']])
   \<and> MultiSelect_handleToggleValue
        (demoTags\<lparr>value_prop := [''react'', ''typescript'', ''python'']\<rparr>)
        \<lparr>internalOpen = True, inputValue = []\<rparr> ''python''
     = (\<lparr>internalOpen = True, inputValue = []\<rparr>, [OnValueChange [''react'', ''typescript'']])
   \<and> ''python'' \<notin> set (value_prop demoTags)
   \<and> [''react'', ''typescript''] = value_prop demoTags
   \<and> MultiSelect_handleToggleValue demoTags \<lparr>internalOpen = True, inputValue = []\<rparr> ''react''
     = (\<lparr>internalOpen = True, inputValue = []\<rparr>, [OnValueChange [''typescript'']])
   \<and> MultiSelect_handleToggleValue (demoTags\<lparr>value_prop := [''typescript'']\<rparr>)
        \<lparr>internalOpen = True, inputValue = []\<rparr> ''react''
     = (\<lparr>internalOpen = True, inputValue = []\<rparr>, [OnValueChange [''typescript'', ''react'']])
   \<and> ''react'' \<in> set (value_prop demoTags)
   \<and> [''typescript'', ''react'']
     = filter (\<lambda>w. w \<noteq> ''react'') (value_prop demoTags) @ [''react'']"
proof -
  let ?o = "\<lparr>internalOpen = True, inputValue = []\<rparr>"
  have h1: "MultiSelect_handleToggleValue demoTags \<lparr>internalOpen = True, inputValue = ''py''\<rparr>
      ''python''
     = (?o, [OnValueChange [''react'', ''typescript'', ''python'']])"
    by (simp add: demo_defs MultiSelect_handleToggleValue_def MultiSelect_newValue_def)
  have h2: "MultiSelect_handleToggleValue
        (demoTags\<lparr>value_prop := [''react'', ''typescript'', ''python'']\<rparr>) ?o ''python''
     = (?o, [OnValueChange [''react'', ''typescript'']])"
    by (simp add: demo_defs MultiSelect_handleToggleValue_def MultiSelect_newValue_def)
  have h3: "''python'' \<notin> set (value_prop demoTags)" by (simp add: demo_defs)
  have g1: "MultiSelect_handleToggleValue demoTags ?o ''react''
     = (?o, [OnValueChange [''typescript'']])"
    by (simp add: demo_defs MultiSelect_handleToggleValue_def MultiSelect_newValue_def)
  have g2: "MultiSelect_handleToggleValue (demoTags\<lparr>value_prop := [''typescript'']\<rparr>) ?o
      ''react''
     = (?o, [OnValueChange [''typescript'', ''react'']])"
    by (simp add: demo_defs MultiSelect_handleToggleValue_def MultiSelect_newValue_def)
  have g3: "''react'' \<in> set (value_prop demoTags)" by (simp add: demo_defs)
  from C2_toggle_twice [OF h1 h2] h3 have c1: "[''react'', ''typescript''] = value_prop demoTags"
    by blast
  from C2_toggle_twice [OF g1 g2] g3 have c2: "[''typescript'', ''react'']
     = filter (\<lambda>w. w \<noteq> ''react'') (value_prop demoTags) @ [''react'']"
    by blast
  from h1 h2 h3 g1 g2 g3 c1 c2 show ?thesis by blast
qed

subsection \<open>C3: creation by the Enter key in Select\<close>

lemma Select_handleValueChange_accepts:
  "\<not> exceedsMaxLength (maxLength p) v \<Longrightarrow>
   Select_handleValueChange p s v =
     (\<lparr>internalOpen = (if disabled p then internalOpen s else False), inputValue = []\<rparr>,
      OnValueChange v # (if \<not> disabled p \<and> onOpenChange p then [OnOpenChange False] else []))"
  by (simp add: Select_handleValueChange_def handleOpenChange_def Let_def)

text \<open>
  The test of \<open>handleKeyDown\<close> finds a match exactly when the filter of the list keeps an
  option.
\<close>

lemma hasMatch_iff_visible:
  "hasMatch cs text \<longleftrightarrow> filter isValidElement (filter (keepChild text) cs) \<noteq> []"
  by (induction cs) (auto simp: hasMatch_def keepChild_def split: child.splits)

lemma Select_no_option_visible:
  assumes "creatable p" and "trim (inputValue s) \<noteq> []"
  shows "hasMatch cs (inputValue s) \<longleftrightarrow>
    filter isValidElement (SelectContent_filteredChildren (Select_filterValue p s) cs) \<noteq> []"
proof -
  from assms(2) have "inputValue s \<noteq> []" using trim_Nil by auto
  with assms(1) show ?thesis
    by (simp add: hasMatch_iff_visible Select_filterValue_def SelectContent_filteredChildren_def)
qed

lemma MultiSelect_no_option_visible:
  assumes "children p = Some cs" and "trim (inputValue s) \<noteq> []"
  shows "hasMatch cs (inputValue s) \<longleftrightarrow>
    filter isValidElement (MultiSelect_filteredChildren p s) \<noteq> []"
proof -
  from assms(2) have "inputValue s \<noteq> []" using trim_Nil by auto
  with assms(1) show ?thesis
    by (simp add: hasMatch_iff_visible MultiSelect_filteredChildren_def)
qed

text \<open>
  Claim C3, as stated, asks for a non-empty filter text only. \<open>handleKeyDown\<close> returns at
  once when the trimmed text is empty: in the creatable widget of the demo, with two spaces
  typed, no option is visible and Enter does nothing at all.
\<close>

theorem C3_whitespace_not_created:
  "inputValue \<lparr>internalOpen = True, inputValue = ''  ''\<rparr> \<noteq> []
   \<and> creatable demoCustom
   \<and> Select_visible demoCustom \<lparr>internalOpen = True, inputValue = ''  ''\<rparr> = []
   \<and> Select_handleKeyDown demoCustom \<lparr>internalOpen = True, inputValue = ''  ''\<rparr> ''Enter''
      = (\<lparr>internalOpen = True, inputValue = ''  ''\<rparr>, [])"
  by (simp add: demo_defs Select_handleKeyDown_def string_defs Select_filterValue_def
      Select_visible_def SelectContent_filteredChildren_def keepChild_def labelIncludes_def
      itemLabel_def)

text \<open>
  Claim C3, amended. In creatable single-select mode with a \<open>SelectContent\<close> child,
  pressing Enter when the trimmed filter text is non-empty, the filter text leaves no
  option among the filtered children (no option's plain-text label, or value when the label
  is not plain text, contains it case-insensitively) and the trimmed text is not longer than
  a non-zero \<open>maxLength\<close>:
  prevents the default action, calls \<open>onCreateOption\<close> (when supplied) exactly once with
  the trimmed text, then \<open>onValueChange\<close> with the trimmed text, clears the filter text,
  and closes the dropdown (reporting it to \<open>onOpenChange\<close> when supplied) unless the
  widget is disabled, in which case the open flag stays as it is.
\<close>

theorem C3_enter_creates:
  assumes "creatable p" and "trim (inputValue s) \<noteq> []" and "children p = Some cs"
    and "filter isValidElement (SelectContent_filteredChildren (Select_filterValue p s) cs) = []"
    and "\<not> exceedsMaxLength (maxLength p) (trim (inputValue s))"
  shows "Select_handleKeyDown p s ''Enter'' =
     (\<lparr>internalOpen = (if disabled p then internalOpen s else False), inputValue = []\<rparr>,
      [PreventDefault]
      @ (if onCreateOption p then [OnCreateOption (trim (inputValue s))] else [])
      @ [OnValueChange (trim (inputValue s))]
      @ (if \<not> disabled p \<and> onOpenChange p then [OnOpenChange False] else []))"
proof -
  have cv: "Select_handleCreateValue p s =
     (\<lparr>internalOpen = (if disabled p then internalOpen s else False), inputValue = []\<rparr>,
      (if onCreateOption p then [OnCreateOption (trim (inputValue s))] else [])
      @ [OnValueChange (trim (inputValue s))]
      @ (if \<not> disabled p \<and> onOpenChange p then [OnOpenChange False] else []))"
    using assms(2,5)
    by (simp add: Select_handleCreateValue_def Let_def Select_handleValueChange_accepts)
  have "\<not> hasMatch cs (inputValue s)"
    using assms(4) Select_no_option_visible [OF assms(1,2)] by simp
  then show ?thesis
    using assms(1-3) by (simp add: Select_handleKeyDown_def cv)
qed

theorem C3_enter_creates_witness:
  "creatable demoCustom
   \<and> trim (inputValue \<lparr>internalOpen = True, inputValue = '' Rust ''\<rparr>) = ''Rust''
   \<and> Select_visible demoCustom \<lparr>internalOpen = True, inputValue = '' Rust ''\<rparr> = []
   \<and> Select_handleKeyDown demoCustom \<lparr>internalOpen = True, inputValue = '' Rust ''\<rparr> ''Enter''
      = (\<lparr>internalOpen = False, inputValue = []\<rparr>,
         [PreventDefault, OnCreateOption ''Rust'', OnValueChange ''Rust''])"
proof -
  let ?s = "\<lparr>internalOpen = True, inputValue = '' Rust ''\<rparr>"
  let ?cs = "[Element ''Option 1'' (PlainText ''Option 1''),
              Element ''Option 2'' (PlainText ''Option 2''),
              Element ''Option 3'' (PlainText ''Option 3'')]"
  have h1: "creatable demoCustom" by (simp add: demo_defs)
  have t: "trim (inputValue ?s) = ''Rust''" by (simp add: string_defs)
  have h2: "trim (inputValue ?s) \<noteq> []" by (simp add: string_defs)
  have h3: "children demoCustom = Some ?cs" by (simp add: demo_defs)
  have v: "SelectContent_filteredChildren (Select_filterValue demoCustom ?s) ?cs = []"
    by (simp add: demo_defs Select_filterValue_def SelectContent_filteredChildren_def
        keepChild_def labelIncludes_def itemLabel_def string_defs)
  then have h4: "filter isValidElement
      (SelectContent_filteredChildren (Select_filterValue demoCustom ?s) ?cs) = []"
    by simp
  have h5: "\<not> exceedsMaxLength (maxLength demoCustom) (trim (inputValue ?s))"
    by (simp add: demo_defs exceedsMaxLength_def string_defs)
  have vis: "Select_visible demoCustom ?s = []"
    using v h3 by (simp add: Select_visible_def)
  show ?thesis
    using C3_enter_creates [OF h1 h2 h3 h4 h5] h1 t vis by (simp add: demo_defs)
qed

subsection \<open>C4: creation in MultiSelect\<close>

lemma MultiSelect_handleCreateValue_accepts:
  "trim (inputValue s) \<noteq> [] \<Longrightarrow> trim (inputValue s) \<notin> set (value_prop p) \<Longrightarrow>
   \<not> exceedsMaxLength (maxLength p) (trim (inputValue s)) \<Longrightarrow>
   MultiSelect_handleCreateValue p s =
     (s\<lparr>inputValue := []\<rparr>,
      (if onCreateOption p then [OnCreateOption (trim (inputValue s))] else [])
      @ [OnValueChange (value_prop p @ [trim (inputValue s)]), FocusInput])"
  by (simp add: MultiSelect_handleCreateValue_def Let_def)

lemma MultiSelect_handleCreateValue_duplicate:
  "trim (inputValue s) \<in> set (value_prop p) \<Longrightarrow> MultiSelect_handleCreateValue p s = (s, [])"
  by (simp add: MultiSelect_handleCreateValue_def Let_def)

lemma handleCreateValue_blank:
  "trim (inputValue s) = [] \<Longrightarrow> Select_handleCreateValue p s = (s, [])"
  "trim (inputValue s) = [] \<Longrightarrow> MultiSelect_handleCreateValue q s = (s, [])"
  by (simp_all add: Select_handleCreateValue_def MultiSelect_handleCreateValue_def Let_def)

text \<open>
  Claim C4, as stated, takes a non-empty filter text as the trigger. As in \<open>Select\<close>,
  \<open>handleKeyDown\<close> returns at once when the trimmed text is empty: in the tag widget of
  the demo, with two spaces typed, no option is left in the list and Enter does nothing.
\<close>

theorem C4_whitespace_not_created:
  "inputValue \<lparr>internalOpen = True, inputValue = ''  ''\<rparr> \<noteq> []
   \<and> creatable demoTags
   \<and> MultiSelect_filteredChildren demoTags \<lparr>internalOpen = True, inputValue = ''  ''\<rparr> = []
   \<and> MultiSelect_handleKeyDown demoTags \<lparr>internalOpen = True, inputValue = ''  ''\<rparr> ''Enter''
      = (\<lparr>internalOpen = True, inputValue = ''  ''\<rparr>, [])"
  by (simp add: demo_defs MultiSelect_handleKeyDown_def string_defs
      MultiSelect_filteredChildren_def keepChild_def labelIncludes_def itemLabel_def)

text \<open>
  Claim C4, amended. In creatable multi-select mode with a \<open>SelectContent\<close> child, when
  the trimmed filter text is non-empty and the filter text leaves no option among the
  filtered children: if the trimmed
  text is not in the value array and not longer than a non-zero \<open>maxLength\<close>, Enter
  prevents the default action, calls \<open>onCreateOption\<close> (when supplied) with the trimmed
  text, calls \<open>onValueChange\<close> with the array and the trimmed text appended, clears the
  filter text, schedules the focus of the text field and leaves the open flag as it was; a
  click on the create row, which is rendered only while the dropdown is open, does the same
  without \<open>preventDefault\<close> and the dropdown is open afterwards. If the trimmed text is
  already in the array, the creation is skipped: neither callback is called and the state is
  unchanged.
\<close>

theorem C4_multi_creation:
  assumes "creatable p" and "trim (inputValue s) \<noteq> []" and "children p = Some cs"
    and "filter isValidElement (MultiSelect_filteredChildren p s) = []"
  shows "(trim (inputValue s) \<notin> set (value_prop p)
          \<and> \<not> exceedsMaxLength (maxLength p) (trim (inputValue s)) \<longrightarrow>
            MultiSelect_handleKeyDown p s ''Enter'' =
              (s\<lparr>inputValue := []\<rparr>,
               [PreventDefault]
               @ (if onCreateOption p then [OnCreateOption (trim (inputValue s))] else [])
               @ [OnValueChange (value_prop p @ [trim (inputValue s)]), FocusInput])
          \<and> internalOpen (fst (MultiSelect_handleKeyDown p s ''Enter'')) = internalOpen s)
       \<and> (MultiSelect_createRowShown p s
          \<and> \<not> exceedsMaxLength (maxLength p) (trim (inputValue s)) \<longrightarrow>
            MultiSelect_step p s MCreateRowClick =
              (\<lparr>internalOpen = True, inputValue = []\<rparr>,
               (if onCreateOption p then [OnCreateOption (trim (inputValue s))] else [])
               @ [OnValueChange (value_prop p @ [trim (inputValue s)]), FocusInput]))
       \<and> (trim (inputValue s) \<in> set (value_prop p) \<longrightarrow>
            MultiSelect_handleKeyDown p s ''Enter'' = (s, [PreventDefault])
          \<and> MultiSelect_handleCreateValue p s = (s, [])
          \<and> MultiSelect_step p s MCreateRowClick = (s, []))"
proof -
  have nm: "\<not> hasMatch cs (inputValue s)"
    using assms(4) MultiSelect_no_option_visible [OF assms(3,2)] by simp
  have a: "MultiSelect_handleKeyDown p s ''Enter'' =
              (s\<lparr>inputValue := []\<rparr>,
               [PreventDefault]
               @ (if onCreateOption p then [OnCreateOption (trim (inputValue s))] else [])
               @ [OnValueChange (value_prop p @ [trim (inputValue s)]), FocusInput])"
    if "trim (inputValue s) \<notin> set (value_prop p)"
      and "\<not> exceedsMaxLength (maxLength p) (trim (inputValue s))"
    using assms(1-3) nm that
    by (simp add: MultiSelect_handleKeyDown_def MultiSelect_handleCreateValue_accepts)
  have b: "MultiSelect_step p s MCreateRowClick =
              (\<lparr>internalOpen = True, inputValue = []\<rparr>,
               (if onCreateOption p then [OnCreateOption (trim (inputValue s))] else [])
               @ [OnValueChange (value_prop p @ [trim (inputValue s)]), FocusInput])"
    if "MultiSelect_createRowShown p s"
      and "\<not> exceedsMaxLength (maxLength p) (trim (inputValue s))"
  proof -
    from that(1) have o: "internalOpen s" and n: "trim (inputValue s) \<notin> set (value_prop p)"
      by (simp_all add: MultiSelect_createRowShown_def MultiSelect_listShown_def)
    from o have "s\<lparr>inputValue := []\<rparr> = \<lparr>internalOpen = True, inputValue = []\<rparr>" by simp
    then show ?thesis
      using that assms(2) n
      by (simp add: MultiSelect_step_def MultiSelect_handleCreateValue_accepts)
  qed
  have c: "MultiSelect_handleKeyDown p s ''Enter'' = (s, [PreventDefault])
          \<and> MultiSelect_handleCreateValue p s = (s, [])
          \<and> MultiSelect_step p s MCreateRowClick = (s, [])"
    if "trim (inputValue s) \<in> set (value_prop p)"
    using assms(1-3) nm that
    by (simp add: MultiSelect_handleKeyDown_def MultiSelect_handleCreateValue_duplicate
        MultiSelect_step_def MultiSelect_createRowShown_def)
  show ?thesis using a b c by simp
qed

theorem C4_multi_creation_witness:
  "creatable demoTags
   \<and> trim (inputValue \<lparr>internalOpen = True, inputValue = '' rust ''\<rparr>) = ''rust''
   \<and> MultiSelect_filteredChildren demoTags \<lparr>internalOpen = True, inputValue = '' rust ''\<rparr>
       = []
   \<and> MultiSelect_createRowShown demoTags \<lparr>internalOpen = True, inputValue = '' rust ''\<rparr>
   \<and> MultiSelect_handleKeyDown demoTags \<lparr>internalOpen = True, inputValue = '' rust ''\<rparr> ''Enter''
      = (\<lparr>internalOpen = True, inputValue = []\<rparr>,
         [PreventDefault, OnCreateOption ''rust'',
          OnValueChange [''react'', ''typescript'', ''rust''], FocusInput])
   \<and> MultiSelect_step demoTags \<lparr>internalOpen = True, inputValue = '' rust ''\<rparr> MCreateRowClick
      = (\<lparr>internalOpen = True, inputValue = []\<rparr>,
         [OnCreateOption ''rust'', OnValueChange [''react'', ''typescript'', ''rust''],
          FocusInput])
   \<and> trim (inputValue \<lparr>internalOpen = True, inputValue = ''react ''\<rparr>) \<in> set (value_prop demoTags)
   \<and> MultiSelect_handleCreateValue demoTags \<lparr>internalOpen = True, inputValue = ''react ''\<rparr>
      = (\<lparr>internalOpen = True, inputValue = ''react ''\<rparr>, [])"
proof -
  let ?s = "\<lparr>internalOpen = True, inputValue = '' rust ''\<rparr>"
  let ?r = "\<lparr>internalOpen = True, inputValue = ''react ''\<rparr>"
  let ?cs = "[Element ''react'' (PlainText ''react''),
              Element ''typescript'' (PlainText ''typescript''),
              Element ''javascript'' (PlainText ''javascript''),
              Element ''python'' (PlainText ''python''),
              Element ''go'' (PlainText ''go'')]"
  have h1: "creatable demoTags" by (simp add: demo_defs)
  have t: "trim (inputValue ?s) = ''rust''" by (simp add: string_defs)
  have h2: "trim (inputValue ?s) \<noteq> []" by (simp add: string_defs)
  have h3: "children demoTags = Some ?cs" by (simp add: demo_defs)
  have v: "MultiSelect_filteredChildren demoTags ?s = []"
    by (simp add: demo_defs MultiSelect_filteredChildren_def keepChild_def labelIncludes_def
        itemLabel_def string_defs)
  then have h4: "filter isValidElement (MultiSelect_filteredChildren demoTags ?s) = []"
    by simp
  have h5: "trim (inputValue ?s) \<notin> set (value_prop demoTags)
      \<and> \<not> exceedsMaxLength (maxLength demoTags) (trim (inputValue ?s))"
    by (simp add: demo_defs exceedsMaxLength_def string_defs)
  have h6: "MultiSelect_createRowShown demoTags ?s"
    by (simp add: demo_defs MultiSelect_createRowShown_def MultiSelect_listShown_def
        MultiSelect_filteredChildren_def keepChild_def labelIncludes_def itemLabel_def
        string_defs)
  have r: "trim (inputValue ?r) = ''react''" by (simp add: string_defs)
  have g2: "trim (inputValue ?r) \<noteq> []" by (simp add: string_defs)
  have g4: "filter isValidElement (MultiSelect_filteredChildren demoTags ?r) = []"
    by (simp add: demo_defs MultiSelect_filteredChildren_def keepChild_def labelIncludes_def
        itemLabel_def string_defs)
  have g5: "trim (inputValue ?r) \<in> set (value_prop demoTags)"
    by (simp add: demo_defs string_defs)
  show ?thesis
    using C4_multi_creation [OF h1 h2 h3 h4] C4_multi_creation [OF h1 g2 h3 g4]
      h1 v h5 h6 g5
    by (simp add: demo_defs string_defs exceedsMaxLength_def)
qed

subsection \<open>C5: clicking an item of Select\<close>

text \<open>
  Claim C5, as stated, speaks of every item. \<open>handleValueChange\<close> rejects a value longer
  than a non-zero \<open>maxLength\<close>: with \<open>maxLength\<close> 3 a click on \<open>Option 1\<close> calls
  nothing. And \<open>handleOpenChange\<close> does nothing while \<open>disabled\<close> holds: a disabled
  widget rendered open reports the clicked value and stays open.
\<close>

theorem C5_item_click_rejected:
  "Select_step (demoCustom\<lparr>maxLength := Some 3\<rparr>) \<lparr>internalOpen = True, inputValue = []\<rparr>
     (ItemClick ''Option 1'')
     = (\<lparr>internalOpen = True, inputValue = []\<rparr>, [])
   \<and> Select_step (demoFramework\<lparr>disabled := True, defaultOpen := True\<rparr>)
       (initialState (demoFramework\<lparr>disabled := True, defaultOpen := True\<rparr>)) (ItemClick ''vue'')
     = (\<lparr>internalOpen = True, inputValue = []\<rparr>, [OnValueChange ''vue''])"
  by (simp add: demo_defs Select_step_def Select_visible_def Select_filterValue_def
      SelectContent_filteredChildren_def SelectItem_handleClick_def initialState_def
      Select_handleValueChange_def exceedsMaxLength_def handleOpenChange_def)

text \<open>
  Claim C5, amended. For every item in single-select mode whose value is not longer than a
  non-zero \<open>maxLength\<close>, clicking that item calls \<open>onValueChange\<close> with exactly that
  item's value and clears the filter text; unless the widget is disabled it also closes the
  dropdown (and reports it to \<open>onOpenChange\<close> when supplied), and when the widget is
  disabled the open flag stays as it is.
\<close>

theorem C5_item_click:
  assumes "\<not> exceedsMaxLength (maxLength p) v"
  shows "SelectItem_handleClick None (Some (Select_handleValueChange p s)) (s, []) v =
     (\<lparr>internalOpen = (if disabled p then internalOpen s else False), inputValue = []\<rparr>,
      OnValueChange v # (if \<not> disabled p \<and> onOpenChange p then [OnOpenChange False] else []))"
  using assms by (simp add: SelectItem_handleClick_def Select_handleValueChange_accepts)

theorem C5_item_click_witness:
  "\<not> exceedsMaxLength (maxLength demoFramework) ''vue''
   \<and> SelectItem_handleClick None
        (Some (Select_handleValueChange demoFramework \<lparr>internalOpen = True, inputValue = []\<rparr>))
        (\<lparr>internalOpen = True, inputValue = []\<rparr>, []) ''vue''
      = (\<lparr>internalOpen = False, inputValue = []\<rparr>, [OnValueChange ''vue''])"
proof -
  have h: "\<not> exceedsMaxLength (maxLength demoFramework) ''vue''"
    by (simp add: demo_defs exceedsMaxLength_def)
  show ?thesis
    using h C5_item_click [OF h, of "\<lparr>internalOpen = True, inputValue = []\<rparr>"]
    by (simp add: demo_defs)
qed

subsection \<open>C8: blank and duplicate creations\<close>

text \<open>
  Claim C8. When the trimmed input text is empty, \<open>handleCreateValue\<close> of either
  component, the Enter key and a click on the create row return the state as it is and
  perform no effect: \<open>onCreateOption\<close> and \<open>onValueChange\<close> are not called, the open
  flag and \<open>inputValue\<close> are unchanged, and the handlers have no failing branch. When the
  trimmed text is already in the array of \<open>MultiSelect\<close>, \<open>handleCreateValue\<close> and the
  create row do the same, and the Enter key leaves the state unchanged and performs at most
  \<open>preventDefault\<close>.
\<close>

theorem C8_blank_or_duplicate_ignored:
  "(trim (inputValue s) = [] \<longrightarrow>
      Select_handleCreateValue p s = (s, [])
    \<and> Select_handleKeyDown p s key = (s, [])
    \<and> Select_step p s CreateRowClick = (s, [])
    \<and> MultiSelect_handleCreateValue q s = (s, [])
    \<and> MultiSelect_handleKeyDown q s key = (s, [])
    \<and> MultiSelect_step q s MCreateRowClick = (s, []))
   \<and> (trim (inputValue s) \<in> set (value_prop q) \<longrightarrow>
      MultiSelect_handleCreateValue q s = (s, [])
    \<and> MultiSelect_step q s MCreateRowClick = (s, [])
    \<and> fst (MultiSelect_handleKeyDown q s key) = s
    \<and> set (snd (MultiSelect_handleKeyDown q s key)) \<subseteq> {PreventDefault})"
proof -
  have a: "Select_handleKeyDown p s key = (s, []) \<and> MultiSelect_handleKeyDown q s key = (s, [])"
    if "trim (inputValue s) = []"
    using that by (simp add: Select_handleKeyDown_def MultiSelect_handleKeyDown_def)
  have b: "Select_step p s CreateRowClick = (s, [])
         \<and> MultiSelect_step q s MCreateRowClick = (s, [])"
    if "trim (inputValue s) = []"
    using that by (simp add: Select_step_def MultiSelect_step_def handleCreateValue_blank)
  have c: "MultiSelect_step q s MCreateRowClick = (s, [])
    \<and> fst (MultiSelect_handleKeyDown q s key) = s
    \<and> set (snd (MultiSelect_handleKeyDown q s key)) \<subseteq> {PreventDefault}"
    if "trim (inputValue s) \<in> set (value_prop q)"
    using that
    by (simp add: MultiSelect_step_def MultiSelect_handleKeyDown_def
        MultiSelect_handleCreateValue_duplicate split: option.splits)
  show ?thesis
    using a b c handleCreateValue_blank MultiSelect_handleCreateValue_duplicate by blast
qed

theorem C8_blank_or_duplicate_ignored_witness:
  "trim (inputValue \<lparr>internalOpen = True, inputValue = ''   ''\<rparr>) = []
   \<and> Select_handleCreateValue demoCustom \<lparr>internalOpen = True, inputValue = ''   ''\<rparr>
      = (\<lparr>internalOpen = True, inputValue = ''   ''\<rparr>, [])
   \<and> MultiSelect_handleCreateValue demoTags \<lparr>internalOpen = True, inputValue = ''   ''\<rparr>
      = (\<lparr>internalOpen = True, inputValue = ''   ''\<rparr>, [])
   \<and> trim (inputValue \<lparr>internalOpen = True, inputValue = '' react''\<rparr>) \<in> set (value_prop demoTags)
   \<and> MultiSelect_handleCreateValue demoTags \<lparr>internalOpen = True, inputValue = '' react''\<rparr>
      = (\<lparr>internalOpen = True, inputValue = '' react''\<rparr>, [])"
proof -
  have h1: "trim (inputValue \<lparr>internalOpen = True, inputValue = ''   ''\<rparr>) = []"
    by (simp add: string_defs)
  have h2: "trim (inputValue \<lparr>internalOpen = True, inputValue = '' react''\<rparr>)
      \<in> set (value_prop demoTags)"
    by (simp add: string_defs demo_defs)
  show ?thesis
    using h1 h2
      C8_blank_or_duplicate_ignored [of "\<lparr>internalOpen = True, inputValue = ''   ''\<rparr>"
        demoCustom "''Enter''" demoTags]
      C8_blank_or_duplicate_ignored [of "\<lparr>internalOpen = True, inputValue = '' react''\<rparr>"
        demoCustom "''Enter''" demoTags]
    by blast
qed

subsection \<open>C9: a maxLength of 0\<close>

lemma Select_filterValue_maxLength:
  "Select_filterValue (r\<lparr>maxLength := x\<rparr>) s = Select_filterValue r s"
  by (simp add: Select_filterValue_def)

lemma handleOpenChange_maxLength:
  "handleOpenChange (p\<lparr>maxLength := x\<rparr>) s opn = handleOpenChange p s opn"
  by (simp add: handleOpenChange_def)

lemma Select_visible_maxLength:
  "Select_visible (r\<lparr>maxLength := x\<rparr>) s = Select_visible r s"
  by (simp add: Select_visible_def Select_filterValue_maxLength split: option.splits)

lemma MultiSelect_filteredChildren_maxLength:
  "MultiSelect_filteredChildren (q\<lparr>maxLength := x\<rparr>) s = MultiSelect_filteredChildren q s"
  by (simp add: MultiSelect_filteredChildren_def)

lemma maxLength_irrelevant:
  "documentMouseDown (p\<lparr>maxLength := x\<rparr>) s b = documentMouseDown p s b"
  "SelectTrigger_handleClick (r\<lparr>maxLength := x\<rparr>) s = SelectTrigger_handleClick r s"
  "Select_createRowShown (r\<lparr>maxLength := x\<rparr>) s = Select_createRowShown r s"
  "MultiSelect_listShown (q\<lparr>maxLength := x\<rparr>) s = MultiSelect_listShown q s"
  "MultiSelect_createRowShown (q\<lparr>maxLength := x\<rparr>) s = MultiSelect_createRowShown q s"
  "MultiSelect_handleToggleValue (q\<lparr>maxLength := x\<rparr>) s v = MultiSelect_handleToggleValue q s v"
  "MultiSelect_handleRemoveValue (q\<lparr>maxLength := x\<rparr>) s v = MultiSelect_handleRemoveValue q s v"
  "MultiSelect_handleClearAll (q\<lparr>maxLength := x\<rparr>) s = MultiSelect_handleClearAll q s"
  "MultiSelect_handleContainerClick (q\<lparr>maxLength := x\<rparr>) s = MultiSelect_handleContainerClick q s"
  "MultiSelect_onFocus (q\<lparr>maxLength := x\<rparr>) s = MultiSelect_onFocus q s"
  by (simp_all add: handleOpenChange_maxLength documentMouseDown_def handleClickOutside_def
      SelectTrigger_handleClick_def Select_onToggle_def Select_visible_maxLength
      Select_createRowShown_def MultiSelect_filteredChildren_maxLength
      MultiSelect_listShown_def MultiSelect_createRowShown_def
      MultiSelect_handleToggleValue_def MultiSelect_handleRemoveValue_def
      MultiSelect_handleClearAll_def MultiSelect_handleContainerClick_def
      MultiSelect_onFocus_def)

lemma Select_handleValueChange_maxLength_zero:
  "Select_handleValueChange (p\<lparr>maxLength := Some 0\<rparr>) s v
     = Select_handleValueChange (p\<lparr>maxLength := None\<rparr>) s v"
  by (simp add: Select_handleValueChange_def exceedsMaxLength_def handleOpenChange_maxLength)

lemma Select_handleInputChange_maxLength_zero:
  "Select_handleInputChange (p\<lparr>maxLength := Some 0\<rparr>) s v
     = Select_handleInputChange (p\<lparr>maxLength := None\<rparr>) s v"
  by (simp add: Select_handleInputChange_def exceedsMaxLength_def Let_def handleOpenChange_maxLength)

lemma Select_handleCreateValue_maxLength_zero:
  "Select_handleCreateValue (p\<lparr>maxLength := Some 0\<rparr>) s
     = Select_handleCreateValue (p\<lparr>maxLength := None\<rparr>) s"
  by (simp add: Select_handleCreateValue_def exceedsMaxLength_def Let_def
      Select_handleValueChange_maxLength_zero)

lemma Select_handleKeyDown_maxLength_zero:
  "Select_handleKeyDown (p\<lparr>maxLength := Some 0\<rparr>) s key
     = Select_handleKeyDown (p\<lparr>maxLength := None\<rparr>) s key"
  by (simp add: Select_handleKeyDown_def Select_handleCreateValue_maxLength_zero
      split: option.splits)

lemma Select_step_maxLength_zero:
  "Select_step (p\<lparr>maxLength := Some 0\<rparr>) s e = Select_step (p\<lparr>maxLength := None\<rparr>) s e"
  by (cases e)
    (simp_all add: Select_step_def Select_handleValueChange_maxLength_zero
      Select_handleInputChange_maxLength_zero Select_handleCreateValue_maxLength_zero
      Select_handleKeyDown_maxLength_zero maxLength_irrelevant Select_visible_maxLength
      MultiSelect_filteredChildren_maxLength SelectItem_handleClick_def)

lemma MultiSelect_handleInputChange_maxLength_zero:
  "MultiSelect_handleInputChange (q\<lparr>maxLength := Some 0\<rparr>) s v
     = MultiSelect_handleInputChange (q\<lparr>maxLength := None\<rparr>) s v"
  by (simp add: MultiSelect_handleInputChange_def exceedsMaxLength_def)

lemma MultiSelect_handleCreateValue_maxLength_zero:
  "MultiSelect_handleCreateValue (q\<lparr>maxLength := Some 0\<rparr>) s
     = MultiSelect_handleCreateValue (q\<lparr>maxLength := None\<rparr>) s"
  by (simp add: MultiSelect_handleCreateValue_def exceedsMaxLength_def Let_def)

lemma MultiSelect_handleKeyDown_maxLength_zero:
  "MultiSelect_handleKeyDown (q\<lparr>maxLength := Some 0\<rparr>) s key
     = MultiSelect_handleKeyDown (q\<lparr>maxLength := None\<rparr>) s key"
  by (simp add: MultiSelect_handleKeyDown_def MultiSelect_handleCreateValue_maxLength_zero
      split: option.splits)

lemma MultiSelect_step_maxLength_zero:
  "MultiSelect_step (q\<lparr>maxLength := Some 0\<rparr>) s e
     = MultiSelect_step (q\<lparr>maxLength := None\<rparr>) s e"
  by (cases e)
    (simp_all add: MultiSelect_step_def MultiSelect_handleInputChange_maxLength_zero
      MultiSelect_handleCreateValue_maxLength_zero MultiSelect_handleKeyDown_maxLength_zero
      maxLength_irrelevant Select_visible_maxLength
      MultiSelect_filteredChildren_maxLength SelectItem_handleClick_def)

text \<open>
  Claim C9. With \<open>maxLength\<close> 0 every handler of both components, and every event of the
  rendered tree, behaves as with \<open>maxLength\<close> undefined: the guards test the truthiness
  of \<open>maxLength\<close> first. So an edit of any length is stored in \<open>inputValue\<close>, a commit
  of any length reaches \<open>onValueChange\<close>, and a creation with a non-blank text (not yet
  in the array, for \<open>MultiSelect\<close>) reaches \<open>onValueChange\<close> whatever its length. (The
  \<open>maxLength\<close> attribute the text field passes to the browser is not part of the handlers.)
\<close>

theorem C9_zero_maxLength_disables_guard:
  "Select_step (p\<lparr>maxLength := Some 0\<rparr>) s e = Select_step (p\<lparr>maxLength := None\<rparr>) s e
   \<and> Select_handleValueChange (p\<lparr>maxLength := Some 0\<rparr>) s inp
       = Select_handleValueChange (p\<lparr>maxLength := None\<rparr>) s inp
   \<and> Select_handleInputChange (p\<lparr>maxLength := Some 0\<rparr>) s inp
       = Select_handleInputChange (p\<lparr>maxLength := None\<rparr>) s inp
   \<and> Select_handleCreateValue (p\<lparr>maxLength := Some 0\<rparr>) s
       = Select_handleCreateValue (p\<lparr>maxLength := None\<rparr>) s
   \<and> MultiSelect_step (q\<lparr>maxLength := Some 0\<rparr>) s m
       = MultiSelect_step (q\<lparr>maxLength := None\<rparr>) s m
   \<and> MultiSelect_handleInputChange (q\<lparr>maxLength := Some 0\<rparr>) s inp
       = MultiSelect_handleInputChange (q\<lparr>maxLength := None\<rparr>) s inp
   \<and> MultiSelect_handleCreateValue (q\<lparr>maxLength := Some 0\<rparr>) s
       = MultiSelect_handleCreateValue (q\<lparr>maxLength := None\<rparr>) s
   \<and> inputValue (fst (Select_handleInputChange (p\<lparr>maxLength := Some 0\<rparr>) s inp)) = inp
   \<and> hd (snd (Select_handleValueChange (p\<lparr>maxLength := Some 0\<rparr>) s inp)) = OnValueChange inp
   \<and> MultiSelect_handleInputChange (q\<lparr>maxLength := Some 0\<rparr>) s inp
       = (s\<lparr>inputValue := inp\<rparr>, [])
   \<and> (trim (inputValue s) \<noteq> [] \<longrightarrow>
        OnValueChange (trim (inputValue s))
          \<in> set (snd (Select_handleCreateValue (p\<lparr>maxLength := Some 0\<rparr>) s))
      \<and> (trim (inputValue s) \<notin> set (value_prop q) \<longrightarrow>
          OnValueChange (value_prop q @ [trim (inputValue s)])
            \<in> set (snd (MultiSelect_handleCreateValue (q\<lparr>maxLength := Some 0\<rparr>) s))))"
proof -
  have a: "inputValue (fst (Select_handleInputChange (p\<lparr>maxLength := Some 0\<rparr>) s inp)) = inp"
    by (simp add: Select_handleInputChange_def exceedsMaxLength_def handleOpenChange_def
        Let_def)
  have b: "hd (snd (Select_handleValueChange (p\<lparr>maxLength := Some 0\<rparr>) s inp))
      = OnValueChange inp"
    by (simp add: Select_handleValueChange_def exceedsMaxLength_def split_def Let_def)
  have c: "MultiSelect_handleInputChange (q\<lparr>maxLength := Some 0\<rparr>) s inp
       = (s\<lparr>inputValue := inp\<rparr>, [])"
    by (simp add: MultiSelect_handleInputChange_def exceedsMaxLength_def)
  have d: "OnValueChange (trim (inputValue s))
          \<in> set (snd (Select_handleCreateValue (p\<lparr>maxLength := Some 0\<rparr>) s))"
    if "trim (inputValue s) \<noteq> []"
    using that
    by (simp add: Select_handleCreateValue_def Select_handleValueChange_def
        exceedsMaxLength_def split_def Let_def)
  have e: "OnValueChange (value_prop q @ [trim (inputValue s)])
            \<in> set (snd (MultiSelect_handleCreateValue (q\<lparr>maxLength := Some 0\<rparr>) s))"
    if "trim (inputValue s) \<noteq> []" "trim (inputValue s) \<notin> set (value_prop q)"
    using that by (simp add: MultiSelect_handleCreateValue_def exceedsMaxLength_def Let_def)
  show ?thesis
    using a b c d e Select_step_maxLength_zero Select_handleValueChange_maxLength_zero
      Select_handleInputChange_maxLength_zero Select_handleCreateValue_maxLength_zero
      MultiSelect_step_maxLength_zero MultiSelect_handleInputChange_maxLength_zero
      MultiSelect_handleCreateValue_maxLength_zero
    by simp
qed

theorem C9_zero_maxLength_disables_guard_witness:
  "Select_handleInputChange (demoCustom\<lparr>maxLength := Some 0\<rparr>)
     \<lparr>internalOpen = True, inputValue = []\<rparr> ''a text of more than twenty code units''
   = (\<lparr>internalOpen = True, inputValue = ''a text of more than twenty code units''\<rparr>, [])
   \<and> Select_handleInputChange (demoCustom\<lparr>maxLength := None\<rparr>)
     \<lparr>internalOpen = True, inputValue = []\<rparr> ''a text of more than twenty code units''
   = (\<lparr>internalOpen = True, inputValue = ''a text of more than twenty code units''\<rparr>, [])
   \<and> Select_handleInputChange demoCustom
     \<lparr>internalOpen = True, inputValue = []\<rparr> ''a text of more than twenty code units''
   = (\<lparr>internalOpen = True, inputValue = []\<rparr>, [])
   \<and> trim (inputValue \<lparr>internalOpen = True, inputValue = ''a tag of more than 15''\<rparr>)
      = ''a tag of more than 15''
   \<and> OnValueChange ''a tag of more than 15''
       \<in> set (snd (Select_handleCreateValue (demoCustom\<lparr>maxLength := Some 0\<rparr>)
                    \<lparr>internalOpen = True, inputValue = ''a tag of more than 15''\<rparr>))
   \<and> ''a tag of more than 15'' \<notin> set (value_prop demoTags)
   \<and> OnValueChange [''react'', ''typescript'', ''a tag of more than 15'']
       \<in> set (snd (MultiSelect_handleCreateValue (demoTags\<lparr>maxLength := Some 0\<rparr>)
                    \<lparr>internalOpen = True, inputValue = ''a tag of more than 15''\<rparr>))"
proof -
  let ?e = "\<lparr>internalOpen = True, inputValue = []\<rparr>"
  let ?s = "\<lparr>internalOpen = True, inputValue = ''a tag of more than 15''\<rparr>"
  have n: "Select_handleInputChange (demoCustom\<lparr>maxLength := None\<rparr>) ?e
      ''a text of more than twenty code units''
   = (\<lparr>internalOpen = True, inputValue = ''a text of more than twenty code units''\<rparr>, [])"
    by (simp add: Select_handleInputChange_def exceedsMaxLength_def)
  have g: "Select_handleInputChange demoCustom ?e ''a text of more than twenty code units''
   = (?e, [])"
    by (simp add: demo_defs Select_handleInputChange_def exceedsMaxLength_def)
  have t: "trim (inputValue ?s) = ''a tag of more than 15''" by (simp add: string_defs)
  have h1: "trim (inputValue ?s) \<noteq> []" by (simp add: string_defs)
  have h2: "trim (inputValue ?s) \<notin> set (value_prop demoTags)"
    by (simp add: string_defs demo_defs)
  from C9_zero_maxLength_disables_guard [where p = demoCustom and s = ?e
      and inp = "''a text of more than twenty code units''"]
  have "Select_handleInputChange (demoCustom\<lparr>maxLength := Some 0\<rparr>) ?e
       ''a text of more than twenty code units''
     = Select_handleInputChange (demoCustom\<lparr>maxLength := None\<rparr>) ?e
       ''a text of more than twenty code units''"
    by blast
  with n have c1: "Select_handleInputChange (demoCustom\<lparr>maxLength := Some 0\<rparr>) ?e
       ''a text of more than twenty code units''
   = (\<lparr>internalOpen = True, inputValue = ''a text of more than twenty code units''\<rparr>, [])"
    by simp
  note T = C9_zero_maxLength_disables_guard [where p = demoCustom and s = ?s and q = demoTags]
  from T h1 have "OnValueChange (trim (inputValue ?s))
       \<in> set (snd (Select_handleCreateValue (demoCustom\<lparr>maxLength := Some 0\<rparr>) ?s))"
    by blast
  with t have c2: "OnValueChange ''a tag of more than 15''
       \<in> set (snd (Select_handleCreateValue (demoCustom\<lparr>maxLength := Some 0\<rparr>) ?s))"
    by simp
  from T h1 h2 have "OnValueChange (value_prop demoTags @ [trim (inputValue ?s)])
       \<in> set (snd (MultiSelect_handleCreateValue (demoTags\<lparr>maxLength := Some 0\<rparr>) ?s))"
    by blast
  with t have c3: "OnValueChange [''react'', ''typescript'', ''a tag of more than 15'']
       \<in> set (snd (MultiSelect_handleCreateValue (demoTags\<lparr>maxLength := Some 0\<rparr>) ?s))"
    by (simp add: demo_defs)
  from h2 t have h2': "''a tag of more than 15'' \<notin> set (value_prop demoTags)" by simp
  from n g t c1 c2 c3 h2' show ?thesis by blast
qed

subsection \<open>C6: filtering\<close>

lemma toLowerCase_Nil: "toLowerCase [] = []"
  by (simp add: toLowerCase_def)

lemma ex_append: "\<exists>a b. (x :: 'a list) = a @ b"
  by (metis append_Nil2)

lemma keepChild_Element:
  "keepChild text (Element v l) \<longleftrightarrow>
   (\<exists>a b. toLowerCase (itemLabel v l) = a @ toLowerCase text @ b)"
  by (simp add: keepChild_def labelIncludes_def includes_str_iff)

lemma SelectContent_filteredChildren_Element:
  "Element v l \<in> set (SelectContent_filteredChildren (Some text) cs) \<longleftrightarrow>
   Element v l \<in> set cs \<and> (\<exists>a b. toLowerCase (itemLabel v l) = a @ toLowerCase text @ b)"
proof (cases "text = []")
  case True
  then show ?thesis
    by (simp add: SelectContent_filteredChildren_def toLowerCase_Nil ex_append)
next
  case False
  then show ?thesis by (simp add: SelectContent_filteredChildren_def keepChild_Element)
qed

lemma MultiSelect_filteredChildren_Element:
  assumes "children q = Some cs"
  shows "Element v l \<in> set (MultiSelect_filteredChildren q s) \<longleftrightarrow>
   Element v l \<in> set cs
   \<and> (\<exists>a b. toLowerCase (itemLabel v l) = a @ toLowerCase (inputValue s) @ b)"
proof (cases "inputValue s = []")
  case True
  then show ?thesis
    using assms by (simp add: MultiSelect_filteredChildren_def toLowerCase_Nil ex_append)
next
  case False
  then show ?thesis using assms by (simp add: MultiSelect_filteredChildren_def keepChild_Element)
qed

lemma MultiSelect_step_keeps_empty_input:
  assumes "\<not> creatable p" and "inputValue s = []"
  shows "inputValue (fst (MultiSelect_step p s e)) = []"
  using assms
  by (cases e)
    (simp_all add: MultiSelect_step_def MultiSelect_handleContainerClick_def
      handleOpenChange_def SelectItem_handleClick_def MultiSelect_handleToggleValue_def
      MultiSelect_handleRemoveValue_def MultiSelect_handleClearAll_def
      MultiSelect_createRowShown_def documentMouseDown_def handleClickOutside_def Let_def)

lemma listenerMouseDown_keeps_empty_input:
  "inputValue (hooks w) = [] \<Longrightarrow> inputValue (fst (listenerMouseDown w t)) = []"
  by (cases "listener w")
    (simp_all add: listenerMouseDown_def handleClickOutside_def handleOpenChange_def Let_def)

lemma MultiSelect_dispatch_keeps_empty_input:
  assumes "\<not> creatable p" and "inputValue (hooks w) = []"
  shows "inputValue (hooks (fst (MultiSelect_dispatch p w e))) = []"
proof (cases "\<exists>t. e = MMouseDown t")
  case True
  then obtain t where "e = MMouseDown t" by blast
  then show ?thesis
    using listenerMouseDown_keeps_empty_input [OF assms(2), of t]
    by (simp add: MultiSelect_dispatch_def split_def Let_def)
next
  case False
  then have "MultiSelect_dispatch p w e =
      (let (s1, fx) = MultiSelect_step p (hooks w) e
       in (\<lparr>hooks = s1,
            listener = useEffect_listener p (internalOpen (hooks w)) s1 (listener w)\<rparr>, fx))"
    by (cases e) (simp_all add: MultiSelect_dispatch_def)
  then show ?thesis
    using MultiSelect_step_keeps_empty_input [OF assms, of e]
    by (simp add: split_def Let_def)
qed

lemma MultiSelect_widget_run_keeps_empty_input:
  "list_all (\<lambda>(p, e). \<not> creatable p) evs \<Longrightarrow> inputValue (hooks w) = [] \<Longrightarrow>
   inputValue (hooks (MultiSelect_widget_run w evs)) = []"
proof (induction evs arbitrary: w)
  case Nil
  then show ?case by simp
next
  case (Cons pe evs)
  obtain p e where pe: "pe = (p, e)" by (cases pe)
  with Cons.prems have "\<not> creatable p" by simp
  then have "inputValue (hooks (fst (MultiSelect_dispatch p w e))) = []"
    using Cons.prems(2) by (rule MultiSelect_dispatch_keeps_empty_input)
  moreover from Cons.prems(1) have "list_all (\<lambda>(p, e). \<not> creatable p) evs" by simp
  ultimately show ?case using Cons.IH pe by simp
qed

text \<open>
  Claim C6, as stated, says that no items are removed when the widget is not creatable.
  \<open>filteredChildren\<close> of \<open>MultiSelect\<close> (lines 511-517) tests \<open>inputValue\<close> and
  never \<open>creatable\<close>, and line 597 renders the message for that very state. In the tag
  widget of the demo, focus the text field and type \<open>zz\<close>, then let the caller switch
  \<open>creatable\<close> off: every item is removed.
\<close>

theorem C6_multiselect_filters_when_not_creatable:
  "hooks (MultiSelect_widget_run (mount demoTags)
        [(demoTags, InputFocus), (demoTags, MInputChange ''zz'')])
     = \<lparr>internalOpen = True, inputValue = ''zz''\<rparr>
   \<and> \<not> creatable (demoTags\<lparr>creatable := False\<rparr>)
   \<and> MultiSelect_filteredChildren (demoTags\<lparr>creatable := False\<rparr>)
        \<lparr>internalOpen = True, inputValue = ''zz''\<rparr> = []
   \<and> children (demoTags\<lparr>creatable := False\<rparr>)
     = Some [Element ''react'' (PlainText ''react''),
             Element ''typescript'' (PlainText ''typescript''),
             Element ''javascript'' (PlainText ''javascript''),
             Element ''python'' (PlainText ''python''),
             Element ''go'' (PlainText ''go'')]"
  by (simp add: demo_defs mount_def initialState_def MultiSelect_dispatch_def
      MultiSelect_step_def MultiSelect_onFocus_def MultiSelect_handleInputChange_def
      exceedsMaxLength_def handleOpenChange_def useEffect_listener_def
      MultiSelect_filteredChildren_def keepChild_def labelIncludes_def itemLabel_def
      string_defs)

text \<open>
  Claim C6, amended. In a creatable \<open>Select\<close> and in \<open>MultiSelect\<close> an option of the
  list is among the filtered children exactly when its label in lower case contains the
  filter text in lower case as a substring, where the label is the option's own text when
  that is plain text and its value otherwise. With the options \<open>React\<close> and \<open>Vue\<close>
  and the filter text \<open>re\<close> the filtered list is \<open>React\<close> alone, and filter texts
  that differ in case only give the same list. No item is removed when the filter text is
  empty, nor in a \<open>Select\<close> that is not creatable (its \<open>filterValue\<close> is undefined).
  \<open>MultiSelect\<close> filters by every non-empty \<open>inputValue\<close>, creatable or not; a
  \<open>MultiSelect\<close> that has not been creatable since it was mounted renders no text
  field, so every run of events leaves its \<open>inputValue\<close> empty and no item is removed.
\<close>

theorem C6_filtering:
  "(creatable p \<longrightarrow>
      (Element v l \<in> set (SelectContent_filteredChildren (Select_filterValue p s) cs) \<longleftrightarrow>
       Element v l \<in> set cs
       \<and> (\<exists>a b. toLowerCase (itemLabel v l) = a @ toLowerCase (inputValue s) @ b)))
   \<and> (children q = Some cs \<longrightarrow>
      (Element v l \<in> set (MultiSelect_filteredChildren q s) \<longleftrightarrow>
       Element v l \<in> set cs
       \<and> (\<exists>a b. toLowerCase (itemLabel v l) = a @ toLowerCase (inputValue s) @ b)))
   \<and> itemLabel v (PlainText t) = t \<and> itemLabel v RichContent = v
   \<and> (toLowerCase t1 = toLowerCase t2 \<longrightarrow>
        SelectContent_filteredChildren (Some t1) cs = SelectContent_filteredChildren (Some t2) cs)
   \<and> SelectContent_filteredChildren (Some ''re'')
        [Element ''react'' (PlainText ''React''), Element ''vue'' (PlainText ''Vue'')]
      = [Element ''react'' (PlainText ''React'')]
   \<and> (\<not> creatable p \<or> inputValue s = [] \<longrightarrow>
        SelectContent_filteredChildren (Select_filterValue p s) cs = cs)
   \<and> (children q = Some cs \<and> inputValue s = [] \<longrightarrow> MultiSelect_filteredChildren q s = cs)
   \<and> (children q = Some cs \<and> inputValue s \<noteq> [] \<longrightarrow>
        MultiSelect_filteredChildren q s = filter (keepChild (inputValue s)) cs)
   \<and> (children q = Some cs \<and> list_all (\<lambda>(r, e). \<not> creatable r) evs \<longrightarrow>
        MultiSelect_filteredChildren q (hooks (MultiSelect_widget_run (mount q0) evs)) = cs)"
proof -
  have a: "Element v l \<in> set (SelectContent_filteredChildren (Select_filterValue p s) cs) \<longleftrightarrow>
       Element v l \<in> set cs
       \<and> (\<exists>a b. toLowerCase (itemLabel v l) = a @ toLowerCase (inputValue s) @ b)"
    if "creatable p"
    using that by (simp add: Select_filterValue_def SelectContent_filteredChildren_Element)
  have b: "itemLabel v (PlainText t) = t \<and> itemLabel v RichContent = v"
    by (simp add: itemLabel_def)
  have c: "SelectContent_filteredChildren (Some ''re'')
        [Element ''react'' (PlainText ''React''), Element ''vue'' (PlainText ''Vue'')]
      = [Element ''react'' (PlainText ''React'')]"
    by (simp add: SelectContent_filteredChildren_def keepChild_def labelIncludes_def
        itemLabel_def string_defs)
  have d: "SelectContent_filteredChildren (Select_filterValue p s) cs = cs"
    if "\<not> creatable p \<or> inputValue s = []"
    using that by (auto simp: Select_filterValue_def SelectContent_filteredChildren_def)
  have e: "MultiSelect_filteredChildren q s = cs" if "children q = Some cs" "inputValue s = []"
    using that by (simp add: MultiSelect_filteredChildren_def)
  have e': "MultiSelect_filteredChildren q s = filter (keepChild (inputValue s)) cs"
    if "children q = Some cs" "inputValue s \<noteq> []"
    using that by (simp add: MultiSelect_filteredChildren_def)
  have f: "MultiSelect_filteredChildren q (hooks (MultiSelect_widget_run (mount q0) evs)) = cs"
    if "children q = Some cs" "list_all (\<lambda>(r, e). \<not> creatable r) evs"
  proof -
    have "inputValue (hooks (MultiSelect_widget_run (mount q0) evs)) = []"
      using that(2)
      by (rule MultiSelect_widget_run_keeps_empty_input) (simp add: mount_def initialState_def)
    with that(1) show ?thesis by (simp add: MultiSelect_filteredChildren_def)
  qed
  have g: "SelectContent_filteredChildren (Some t1) cs = SelectContent_filteredChildren (Some t2) cs"
    if "toLowerCase t1 = toLowerCase t2"
  proof -
    from that have "keepChild t1 = keepChild t2"
      by (intro ext) (simp add: keepChild_def labelIncludes_def split: child.splits)
    moreover from that have "t1 = [] \<longleftrightarrow> t2 = []"
      by (metis toLowerCase_def map_is_Nil_conv)
    ultimately show ?thesis by (simp add: SelectContent_filteredChildren_def)
  qed
  show ?thesis
    using a b c d e e' f g MultiSelect_filteredChildren_Element by blast
qed

theorem C6_filtering_witness:
  "creatable demoCustom
   \<and> children demoTags = Some [Element ''react'' (PlainText ''react''),
                        Element ''typescript'' (PlainText ''typescript''),
                        Element ''javascript'' (PlainText ''javascript''),
                        Element ''python'' (PlainText ''python''),
                        Element ''go'' (PlainText ''go'')]
   \<and> Element ''python'' (PlainText ''python'')
       \<in> set (MultiSelect_filteredChildren demoTags \<lparr>internalOpen = True, inputValue = ''PY''\<rparr>)
   \<and> Element ''python'' (PlainText ''python'')
       \<in> set (SelectContent_filteredChildren
               (Select_filterValue demoCustom \<lparr>internalOpen = True, inputValue = ''PY''\<rparr>)
               [Element ''react'' (PlainText ''react''),
                Element ''typescript'' (PlainText ''typescript''),
                Element ''javascript'' (PlainText ''javascript''),
                Element ''python'' (PlainText ''python''),
                Element ''go'' (PlainText ''go'')])
   \<and> toLowerCase ''RE'' = toLowerCase ''re''
   \<and> SelectContent_filteredChildren (Some ''RE'')
        [Element ''react'' (PlainText ''React''), Element ''vue'' (PlainText ''Vue'')]
      = [Element ''react'' (PlainText ''React'')]
   \<and> \<not> creatable demoFramework
   \<and> SelectContent_filteredChildren
        (Select_filterValue demoFramework \<lparr>internalOpen = True, inputValue = ''zz''\<rparr>)
        [Element ''react'' (PlainText ''React''), Element ''vue'' (PlainText ''Vue'')]
      = [Element ''react'' (PlainText ''React''), Element ''vue'' (PlainText ''Vue'')]
   \<and> inputValue \<lparr>internalOpen = True, inputValue = []\<rparr> = []
   \<and> MultiSelect_filteredChildren demoTags \<lparr>internalOpen = True, inputValue = []\<rparr>
      = [Element ''react'' (PlainText ''react''),
         Element ''typescript'' (PlainText ''typescript''),
         Element ''javascript'' (PlainText ''javascript''),
         Element ''python'' (PlainText ''python''),
         Element ''go'' (PlainText ''go'')]
   \<and> list_all (\<lambda>(r, e). \<not> creatable r)
        [(demoTags\<lparr>creatable := False\<rparr>, ContainerClick),
         (demoTags\<lparr>creatable := False\<rparr>, MItemClick ''go'')]
   \<and> inputValue \<lparr>internalOpen = True, inputValue = ''PY''\<rparr> \<noteq> []
   \<and> MultiSelect_filteredChildren demoTags \<lparr>internalOpen = True, inputValue = ''PY''\<rparr>
      = filter (keepChild ''PY'')
          [Element ''react'' (PlainText ''react''),
           Element ''typescript'' (PlainText ''typescript''),
           Element ''javascript'' (PlainText ''javascript''),
           Element ''python'' (PlainText ''python''),
           Element ''go'' (PlainText ''go'')]
   \<and> MultiSelect_filteredChildren demoTags
        (hooks (MultiSelect_widget_run (mount (demoTags\<lparr>creatable := False\<rparr>))
           [(demoTags\<lparr>creatable := False\<rparr>, ContainerClick),
            (demoTags\<lparr>creatable := False\<rparr>, MItemClick ''go'')]))
      = [Element ''react'' (PlainText ''react''),
         Element ''typescript'' (PlainText ''typescript''),
         Element ''javascript'' (PlainText ''javascript''),
         Element ''python'' (PlainText ''python''),
         Element ''go'' (PlainText ''go'')]"
proof -
  let ?s = "\<lparr>internalOpen = True, inputValue = ''PY''\<rparr>"
  let ?z = "\<lparr>internalOpen = True, inputValue = ''zz''\<rparr>"
  let ?e = "\<lparr>internalOpen = True, inputValue = []\<rparr>"
  let ?cs = "[Element ''react'' (PlainText ''react''),
              Element ''typescript'' (PlainText ''typescript''),
              Element ''javascript'' (PlainText ''javascript''),
              Element ''python'' (PlainText ''python''),
              Element ''go'' (PlainText ''go'')]"
  let ?rv = "[Element ''react'' (PlainText ''React''), Element ''vue'' (PlainText ''Vue'')]"
  let ?evs = "[(demoTags\<lparr>creatable := False\<rparr>, ContainerClick),
               (demoTags\<lparr>creatable := False\<rparr>, MItemClick ''go'')]"
  have h1: "creatable demoCustom" by (simp add: demo_defs)
  have h2: "children demoTags = Some ?cs" by (simp add: demo_defs)
  have h3: "list_all (\<lambda>(r, e). \<not> creatable r) ?evs" by simp
  have h4: "toLowerCase ''RE'' = toLowerCase ''re''" by (simp add: string_defs)
  have h5: "\<not> creatable demoFramework" by (simp add: demo_defs)
  have h6: "inputValue ?e = []" by simp
  have "includes_str (toLowerCase ''python'') (toLowerCase ''PY'')"
    by (simp add: string_defs)
  then have m: "\<exists>a b. toLowerCase (itemLabel ''python'' (PlainText ''python''))
      = a @ toLowerCase (inputValue ?s) @ b"
    by (simp add: includes_str_iff itemLabel_def)
  have mem: "Element ''python'' (PlainText ''python'') \<in> set ?cs" by simp
  note T = C6_filtering [where p = demoCustom and v = "''python''"
      and l = "PlainText ''python''" and s = ?s and cs = ?cs and q = demoTags
      and t = "''x''" and evs = ?evs and ?q0.0 = "demoTags\<lparr>creatable := False\<rparr>"
      and ?t1.0 = "''RE''" and ?t2.0 = "''re''"]
  note U = C6_filtering [where p = demoFramework and s = ?z and cs = ?rv
      and ?t1.0 = "''RE''" and ?t2.0 = "''re''"]
  note V = C6_filtering [where q = demoTags and s = ?e and cs = ?cs]
  from T h1 m mem have c1: "Element ''python'' (PlainText ''python'')
       \<in> set (SelectContent_filteredChildren (Select_filterValue demoCustom ?s) ?cs)"
    by blast
  from T h2 m mem have c2: "Element ''python'' (PlainText ''python'')
       \<in> set (MultiSelect_filteredChildren demoTags ?s)"
    by blast
  from T h2 h3 have c3: "MultiSelect_filteredChildren demoTags
        (hooks (MultiSelect_widget_run (mount (demoTags\<lparr>creatable := False\<rparr>)) ?evs)) = ?cs"
    by blast
  have h7: "inputValue ?s \<noteq> []" by simp
  from T h2 h7 have "MultiSelect_filteredChildren demoTags ?s
      = filter (keepChild (inputValue ?s)) ?cs"
    by blast
  then have c7: "MultiSelect_filteredChildren demoTags ?s = filter (keepChild ''PY'') ?cs"
    by simp
  from U have r1: "SelectContent_filteredChildren (Some ''re'') ?rv
      = [Element ''react'' (PlainText ''React'')]"
    by blast
  from U h4 have r2: "SelectContent_filteredChildren (Some ''RE'') ?rv
      = SelectContent_filteredChildren (Some ''re'') ?rv"
    by blast
  from r1 r2 have c4: "SelectContent_filteredChildren (Some ''RE'') ?rv
      = [Element ''react'' (PlainText ''React'')]"
    by simp
  from U h5 have c5: "SelectContent_filteredChildren (Select_filterValue demoFramework ?z) ?rv
      = ?rv"
    by blast
  from V h2 h6 have c6: "MultiSelect_filteredChildren demoTags ?e = ?cs" by blast
  from h1 h2 h3 h4 h5 h6 h7 c1 c2 c3 c4 c5 c6 c7 show ?thesis by blast
qed

subsection \<open>The open flag over all events\<close>

lemma Select_step_closing:
  assumes "internalOpen s" and "\<not> internalOpen (fst (Select_step p s e))"
  shows "inputValue (fst (Select_step p s e)) = []"
proof (cases e)
  case TriggerClick
  with assms show ?thesis
    by (simp add: Select_step_def SelectTrigger_handleClick_def Select_onToggle_def
        handleOpenChange_def Let_def split: if_splits)
next
  case (InputChange inp)
  with assms show ?thesis
    by (simp add: Select_step_def Select_handleInputChange_def Let_def split: if_splits)
next
  case (KeyDown key)
  with assms show ?thesis
    by (simp add: Select_step_def Select_handleKeyDown_def Select_handleCreateValue_def
        Select_handleValueChange_def split_def Let_def split: if_splits option.splits)
next
  case (ItemClick v)
  with assms show ?thesis
    by (simp add: Select_step_def SelectItem_handleClick_def Select_handleValueChange_def
        split_def Let_def split: if_splits)
next
  case CreateRowClick
  with assms show ?thesis
    by (simp add: Select_step_def Select_handleCreateValue_def Select_handleValueChange_def
        split_def Let_def split: if_splits)
next
  case (MouseDown t)
  with assms show ?thesis
    by (simp add: Select_step_def documentMouseDown_def handleClickOutside_def
        handleOpenChange_def Let_def split: if_splits)
qed

lemma MultiSelect_step_closing:
  assumes "internalOpen s" and "\<not> internalOpen (fst (MultiSelect_step p s e))"
  shows "inputValue (fst (MultiSelect_step p s e)) = []"
  using assms
  by (cases e)
    (simp_all add: MultiSelect_step_def MultiSelect_handleContainerClick_def
      SelectItem_handleClick_def MultiSelect_handleToggleValue_def
      MultiSelect_handleRemoveValue_def MultiSelect_handleClearAll_def
      MultiSelect_handleInputChange_def MultiSelect_handleKeyDown_def
      MultiSelect_handleCreateValue_def MultiSelect_onFocus_def documentMouseDown_def
      handleClickOutside_def handleOpenChange_def split_def Let_def
      split: if_splits option.splits)

lemma Select_step_disabled_open:
  assumes "disabled p"
  shows "internalOpen (fst (Select_step p s e)) = internalOpen s"
  using assms
  by (cases e)
    (simp_all add: Select_step_def SelectTrigger_handleClick_def Select_onToggle_def
      Select_handleInputChange_def Select_handleKeyDown_def Select_handleCreateValue_def
      Select_handleValueChange_def SelectItem_handleClick_def documentMouseDown_def
      handleClickOutside_def handleOpenChange_def split_def Let_def
      split: option.splits)

lemma MultiSelect_step_disabled_open:
  assumes "disabled p"
  shows "internalOpen (fst (MultiSelect_step p s e)) = internalOpen s"
  using assms
  by (cases e)
    (simp_all add: MultiSelect_step_def MultiSelect_handleContainerClick_def
      SelectItem_handleClick_def MultiSelect_handleToggleValue_def
      MultiSelect_handleRemoveValue_def MultiSelect_handleClearAll_def
      MultiSelect_handleInputChange_def MultiSelect_handleKeyDown_def
      MultiSelect_handleCreateValue_def MultiSelect_onFocus_def documentMouseDown_def
      handleClickOutside_def handleOpenChange_def split_def Let_def
      split: option.splits)

lemma listenerMouseDown_disabled:
  "listenerDisabled w \<Longrightarrow> listenerMouseDown w t = (hooks w, [])"
  by (cases "listener w")
    (simp_all add: listenerDisabled_def listenerMouseDown_def handleClickOutside_def
      handleOpenChange_def)

lemma Select_dispatch_disabled:
  assumes "disabled p" and "listenerDisabled w"
  shows "internalOpen (hooks (fst (Select_dispatch p w e))) = internalOpen (hooks w)
       \<and> listener (fst (Select_dispatch p w e)) = listener w"
proof (cases "\<exists>t. e = MouseDown t")
  case True
  then obtain t where "e = MouseDown t" by blast
  then show ?thesis
    using assms(2)
    by (simp add: Select_dispatch_def listenerMouseDown_disabled useEffect_listener_def)
next
  case False
  then have "Select_dispatch p w e =
      (let (s1, fx) = Select_step p (hooks w) e
       in (\<lparr>hooks = s1,
            listener = useEffect_listener p (internalOpen (hooks w)) s1 (listener w)\<rparr>, fx))"
    by (cases e) (simp_all add: Select_dispatch_def)
  then show ?thesis
    using Select_step_disabled_open [OF assms(1), of "hooks w" e]
    by (simp add: split_def Let_def useEffect_listener_def)
qed

lemma MultiSelect_dispatch_disabled:
  assumes "disabled p" and "listenerDisabled w"
  shows "internalOpen (hooks (fst (MultiSelect_dispatch p w e))) = internalOpen (hooks w)
       \<and> listener (fst (MultiSelect_dispatch p w e)) = listener w"
proof (cases "\<exists>t. e = MMouseDown t")
  case True
  then obtain t where "e = MMouseDown t" by blast
  then show ?thesis
    using assms(2)
    by (simp add: MultiSelect_dispatch_def listenerMouseDown_disabled useEffect_listener_def)
next
  case False
  then have "MultiSelect_dispatch p w e =
      (let (s1, fx) = MultiSelect_step p (hooks w) e
       in (\<lparr>hooks = s1,
            listener = useEffect_listener p (internalOpen (hooks w)) s1 (listener w)\<rparr>, fx))"
    by (cases e) (simp_all add: MultiSelect_dispatch_def)
  then show ?thesis
    using MultiSelect_step_disabled_open [OF assms(1), of "hooks w" e]
    by (simp add: split_def Let_def useEffect_listener_def)
qed

lemma Select_widget_run_disabled:
  "list_all (\<lambda>(p, e). disabled p) evs \<Longrightarrow> listenerDisabled w \<Longrightarrow>
   internalOpen (hooks (Select_widget_run w evs)) = internalOpen (hooks w)
   \<and> listener (Select_widget_run w evs) = listener w"
proof (induction evs arbitrary: w)
  case Nil
  then show ?case by simp
next
  case (Cons pe evs)
  obtain p e where pe: "pe = (p, e)" by (cases pe)
  with Cons.prems have d: "disabled p" and rest: "list_all (\<lambda>(p, e). disabled p) evs"
    by simp_all
  note step = Select_dispatch_disabled [OF d Cons.prems(2), of e]
  then have "listenerDisabled (fst (Select_dispatch p w e))"
    using Cons.prems(2) by (simp add: listenerDisabled_def)
  from Cons.IH [OF rest this] step pe show ?case by simp
qed

lemma MultiSelect_widget_run_disabled:
  "list_all (\<lambda>(p, e). disabled p) evs \<Longrightarrow> listenerDisabled w \<Longrightarrow>
   internalOpen (hooks (MultiSelect_widget_run w evs)) = internalOpen (hooks w)
   \<and> listener (MultiSelect_widget_run w evs) = listener w"
proof (induction evs arbitrary: w)
  case Nil
  then show ?case by simp
next
  case (Cons pe evs)
  obtain p e where pe: "pe = (p, e)" by (cases pe)
  with Cons.prems have d: "disabled p" and rest: "list_all (\<lambda>(p, e). disabled p) evs"
    by simp_all
  note step = MultiSelect_dispatch_disabled [OF d Cons.prems(2), of e]
  then have "listenerDisabled (fst (MultiSelect_dispatch p w e))"
    using Cons.prems(2) by (simp add: listenerDisabled_def)
  from Cons.IH [OF rest this] step pe show ?case by simp
qed

lemma mount_listenerDisabled: "disabled p \<Longrightarrow> listenerDisabled (mount p)"
  by (simp add: mount_def listenerDisabled_def)

subsection \<open>C7: closing clears the filter text\<close>

text \<open>
  Claim C7, as stated, speaks of every state in which the dropdown is open.
  \<open>handleOpenChange\<close> returns at once while \<open>disabled\<close> holds: a disabled widget
  rendered with \<open>defaultOpen\<close> stays open after a pointer-down outside its root.
\<close>

theorem C7_disabled_stays_open:
  "internalOpen (initialState (demoFramework\<lparr>disabled := True, defaultOpen := True\<rparr>))
   \<and> Select_step (demoFramework\<lparr>disabled := True, defaultOpen := True\<rparr>)
        (initialState (demoFramework\<lparr>disabled := True, defaultOpen := True\<rparr>))
        (MouseDown False)
      = (\<lparr>internalOpen = True, inputValue = []\<rparr>, [])"
  by (simp add: demo_defs initialState_def Select_step_def documentMouseDown_def
      handleClickOutside_def handleOpenChange_def)

text \<open>
  Claim C7, amended. For every state in which the dropdown is open and the widget is not
  disabled, a pointer-down event whose target lies outside the container's root closes the
  dropdown and clears the filter text (and reports the close to \<open>onOpenChange\<close> when
  supplied), in \<open>Select\<close> and in \<open>MultiSelect\<close>. And for every event of either
  component: if the dropdown was open before the event and is closed after it,
  \<open>inputValue\<close> is the empty string after it.
\<close>

theorem C7_closing_clears_input:
  "(internalOpen s \<and> \<not> disabled p \<longrightarrow>
      Select_step p s (MouseDown False)
        = (\<lparr>internalOpen = False, inputValue = []\<rparr>,
           if onOpenChange p then [OnOpenChange False] else []))
   \<and> (internalOpen s \<and> \<not> disabled q \<longrightarrow>
      MultiSelect_step q s (MMouseDown False)
        = (\<lparr>internalOpen = False, inputValue = []\<rparr>,
           if onOpenChange q then [OnOpenChange False] else []))
   \<and> (internalOpen s \<and> \<not> internalOpen (fst (Select_step p s e)) \<longrightarrow>
      inputValue (fst (Select_step p s e)) = [])
   \<and> (internalOpen s \<and> \<not> internalOpen (fst (MultiSelect_step q s m)) \<longrightarrow>
      inputValue (fst (MultiSelect_step q s m)) = [])"
proof -
  have a: "Select_step p s (MouseDown False)
        = (\<lparr>internalOpen = False, inputValue = []\<rparr>,
           if onOpenChange p then [OnOpenChange False] else [])"
    if "internalOpen s" "\<not> disabled p"
    using that
    by (simp add: Select_step_def documentMouseDown_def handleClickOutside_def
        handleOpenChange_def)
  have b: "MultiSelect_step q s (MMouseDown False)
        = (\<lparr>internalOpen = False, inputValue = []\<rparr>,
           if onOpenChange q then [OnOpenChange False] else [])"
    if "internalOpen s" "\<not> disabled q"
    using that
    by (simp add: MultiSelect_step_def documentMouseDown_def handleClickOutside_def
        handleOpenChange_def)
  show ?thesis
    using a b Select_step_closing MultiSelect_step_closing by blast
qed

theorem C7_closing_clears_input_witness:
  "internalOpen \<lparr>internalOpen = True, inputValue = ''op''\<rparr>
   \<and> \<not> disabled demoCustom \<and> \<not> disabled demoTags
   \<and> Select_step demoCustom \<lparr>internalOpen = True, inputValue = ''op''\<rparr> (MouseDown False)
      = (\<lparr>internalOpen = False, inputValue = []\<rparr>, [])
   \<and> MultiSelect_step demoTags \<lparr>internalOpen = True, inputValue = ''op''\<rparr> (MMouseDown False)
      = (\<lparr>internalOpen = False, inputValue = []\<rparr>, [])
   \<and> \<not> internalOpen (fst (Select_step demoCustom \<lparr>internalOpen = True, inputValue = ''op''\<rparr>
        (ItemClick ''Option 1'')))
   \<and> inputValue (fst (Select_step demoCustom \<lparr>internalOpen = True, inputValue = ''op''\<rparr>
        (ItemClick ''Option 1''))) = []
   \<and> \<not> internalOpen (fst (MultiSelect_step demoTags \<lparr>internalOpen = True, inputValue = ''op''\<rparr>
        (MMouseDown False)))
   \<and> inputValue (fst (MultiSelect_step demoTags \<lparr>internalOpen = True, inputValue = ''op''\<rparr>
        (MMouseDown False))) = []"
proof -
  let ?s = "\<lparr>internalOpen = True, inputValue = ''op''\<rparr>"
  have h1: "internalOpen ?s" by simp
  have h2: "\<not> disabled demoCustom" "\<not> disabled demoTags" "\<not> onOpenChange demoCustom"
    "\<not> onOpenChange demoTags"
    by (simp_all add: demo_defs)
  have h3: "\<not> internalOpen (fst (Select_step demoCustom ?s (ItemClick ''Option 1'')))"
    by (simp add: demo_defs Select_step_def Select_visible_def Select_filterValue_def
        SelectContent_filteredChildren_def keepChild_def labelIncludes_def itemLabel_def
        string_defs SelectItem_handleClick_def Select_handleValueChange_def
        exceedsMaxLength_def handleOpenChange_def)
  have h4: "\<not> internalOpen (fst (MultiSelect_step demoTags ?s (MMouseDown False)))"
    by (simp add: demo_defs MultiSelect_step_def documentMouseDown_def handleClickOutside_def
        handleOpenChange_def)
  note T = C7_closing_clears_input [where s = ?s and p = demoCustom and q = demoTags
      and e = "ItemClick ''Option 1''" and m = "MMouseDown False"]
  from T h1 h2 have c1: "Select_step demoCustom ?s (MouseDown False)
      = (\<lparr>internalOpen = False, inputValue = []\<rparr>, [])"
    by simp
  from T h1 h2 have c2: "MultiSelect_step demoTags ?s (MMouseDown False)
      = (\<lparr>internalOpen = False, inputValue = []\<rparr>, [])"
    by simp
  from T h1 h3 have c3: "inputValue (fst (Select_step demoCustom ?s (ItemClick ''Option 1''))) = []"
    by blast
  from T h1 h4 have c4: "inputValue (fst (MultiSelect_step demoTags ?s (MMouseDown False))) = []"
    by blast
  from h1 h2 h3 h4 c1 c2 c3 c4 show ?thesis by blast
qed

subsection \<open>C10: the disabled guard\<close>

text \<open>
  Claim C10, as stated, says that a widget disabled while open stays open for as long as
  \<open>disabled\<close> holds, and that no close trigger clears \<open>inputValue\<close> meanwhile. Both
  fail for a widget that was opened while enabled. In the creatable widget of the demo,
  type \<open>op\<close>, which opens the dropdown and attaches the listener, and let the caller set
  \<open>disabled\<close>. The listener still calls the \<open>handleOpenChange\<close> of the render in
  which the dropdown opened, where \<open>disabled\<close> was false: a pointer-down outside the
  root closes the dropdown and clears the filter text. And a click on the item
  \<open>Option 1\<close> leaves the dropdown open but clears the filter text, since
  \<open>handleValueChange\<close> calls \<open>setInputValue('')\<close> itself after
  \<open>handleOpenChange\<close> has returned.
\<close>

theorem C10_stale_listener_and_item_click:
  "hooks (Select_widget_run (mount demoCustom) [(demoCustom, InputChange ''op'')])
     = \<lparr>internalOpen = True, inputValue = ''op''\<rparr>
   \<and> disabled (demoCustom\<lparr>disabled := True\<rparr>)
   \<and> hooks (Select_widget_run (mount demoCustom)
        [(demoCustom, InputChange ''op''),
         (demoCustom\<lparr>disabled := True\<rparr>, MouseDown False)])
     = \<lparr>internalOpen = False, inputValue = []\<rparr>
   \<and> hooks (Select_widget_run (mount demoCustom)
        [(demoCustom, InputChange ''op''),
         (demoCustom\<lparr>disabled := True\<rparr>, ItemClick ''Option 1'')])
     = \<lparr>internalOpen = True, inputValue = []\<rparr>"
  by (simp add: demo_defs mount_def initialState_def Select_dispatch_def Select_step_def
      Select_handleInputChange_def useEffect_listener_def listenerMouseDown_def
      handleClickOutside_def Select_visible_def Select_filterValue_def
      SelectContent_filteredChildren_def keepChild_def labelIncludes_def itemLabel_def
      string_defs SelectItem_handleClick_def Select_handleValueChange_def
      exceedsMaxLength_def handleOpenChange_def)

text \<open>
  Claim C10, amended. The disabled guard of \<open>handleOpenChange\<close> rejects every
  open-state transition, not only opening: called from a render in which \<open>disabled\<close>
  holds, it changes nothing and calls nothing, and no handler of such a render changes the
  open flag. A widget mounted with \<open>disabled\<close> set (for instance with
  \<open>defaultOpen\<close> and \<open>disabled\<close>), and more generally a widget whose attached
  listener, if any, comes from a render with \<open>disabled\<close> set, keeps its open flag over
  every run of events during which \<open>disabled\<close> holds: a pointer-down outside the root
  changes neither the open flag nor \<open>inputValue\<close>, and the dropdown stays open if it
  was open. \<open>inputValue\<close> is still cleared by the handlers that clear it themselves: an
  accepted value commit of \<open>Select\<close> (item click or creation) and a toggle of
  \<open>MultiSelect\<close>.
\<close>

theorem C10_disabled_widget_stays_open:
  assumes "disabled p" and "disabled q"
  shows "handleOpenChange p s opn = (s, [])
   \<and> internalOpen (fst (Select_step p s e)) = internalOpen s
   \<and> internalOpen (fst (MultiSelect_step q s m)) = internalOpen s
   \<and> listenerDisabled (mount p) \<and> listenerDisabled (mount q)
   \<and> (list_all (\<lambda>(r, e). disabled r) evs \<longrightarrow>
        internalOpen (hooks (Select_widget_run (mount p) evs)) = defaultOpen p)
   \<and> (list_all (\<lambda>(r, e). disabled r) mevs \<longrightarrow>
        internalOpen (hooks (MultiSelect_widget_run (mount q) mevs)) = defaultOpen q)
   \<and> (listenerDisabled w \<longrightarrow> listenerMouseDown w t = (hooks w, []))
   \<and> (listenerDisabled w \<and> list_all (\<lambda>(r, e). disabled r) evs \<longrightarrow>
        internalOpen (hooks (Select_widget_run w evs)) = internalOpen (hooks w))
   \<and> (listenerDisabled mw \<and> list_all (\<lambda>(r, e). disabled r) mevs \<longrightarrow>
        internalOpen (hooks (MultiSelect_widget_run mw mevs)) = internalOpen (hooks mw))
   \<and> (\<not> exceedsMaxLength (maxLength p) v \<longrightarrow>
        Select_handleValueChange p s v = (s\<lparr>inputValue := []\<rparr>, [OnValueChange v]))
   \<and> MultiSelect_handleToggleValue q s v
       = (s\<lparr>inputValue := []\<rparr>, [OnValueChange (MultiSelect_newValue (value_prop q) v)])"
proof -
  have a: "handleOpenChange p s opn = (s, [])"
    using assms(1) by (simp add: handleOpenChange_def)
  have lp: "listenerDisabled (mount p)" and lq: "listenerDisabled (mount q)"
    using assms by (simp_all add: mount_listenerDisabled)
  have b: "internalOpen (hooks (Select_widget_run (mount p) evs)) = defaultOpen p"
    if "list_all (\<lambda>(r, e). disabled r) evs"
    using Select_widget_run_disabled [OF that lp] by (simp add: mount_def initialState_def)
  have c: "internalOpen (hooks (MultiSelect_widget_run (mount q) mevs)) = defaultOpen q"
    if "list_all (\<lambda>(r, e). disabled r) mevs"
    using MultiSelect_widget_run_disabled [OF that lq] by (simp add: mount_def initialState_def)
  have d: "Select_handleValueChange p s v = (s\<lparr>inputValue := []\<rparr>, [OnValueChange v])"
    if "\<not> exceedsMaxLength (maxLength p) v"
    using that assms(1) by (simp add: Select_handleValueChange_def handleOpenChange_def)
  have e: "MultiSelect_handleToggleValue q s v
       = (s\<lparr>inputValue := []\<rparr>, [OnValueChange (MultiSelect_newValue (value_prop q) v)])"
    by (simp add: MultiSelect_handleToggleValue_def)
  have f: "internalOpen (fst (Select_step p s e)) = internalOpen s"
    using assms(1) by (rule Select_step_disabled_open)
  have g: "internalOpen (fst (MultiSelect_step q s m)) = internalOpen s"
    using assms(2) by (rule MultiSelect_step_disabled_open)
  have h: "listenerMouseDown w t = (hooks w, [])" if "listenerDisabled w"
    using that by (rule listenerMouseDown_disabled)
  have i: "internalOpen (hooks (Select_widget_run w evs)) = internalOpen (hooks w)"
    if "listenerDisabled w" "list_all (\<lambda>(r, e). disabled r) evs"
    using Select_widget_run_disabled [OF that(2,1)] by blast
  have j: "internalOpen (hooks (MultiSelect_widget_run mw mevs)) = internalOpen (hooks mw)"
    if "listenerDisabled mw" "list_all (\<lambda>(r, e). disabled r) mevs"
    using MultiSelect_widget_run_disabled [OF that(2,1)] by blast
  show ?thesis
    using a lp lq b c d e f g h i j by blast
qed

theorem C10_disabled_widget_stays_open_witness:
  "disabled (demoFramework\<lparr>disabled := True, defaultOpen := True\<rparr>)
   \<and> disabled (demoTags\<lparr>disabled := True, defaultOpen := True\<rparr>)
   \<and> list_all (\<lambda>(r, e). disabled r)
        [(demoFramework\<lparr>disabled := True, defaultOpen := True\<rparr>, MouseDown False),
         (demoFramework\<lparr>disabled := True, defaultOpen := True\<rparr>, ItemClick ''vue''),
         (demoFramework\<lparr>disabled := True, defaultOpen := True\<rparr>, TriggerClick)]
   \<and> internalOpen (hooks
        (Select_widget_run (mount (demoFramework\<lparr>disabled := True, defaultOpen := True\<rparr>))
           [(demoFramework\<lparr>disabled := True, defaultOpen := True\<rparr>, MouseDown False),
            (demoFramework\<lparr>disabled := True, defaultOpen := True\<rparr>, ItemClick ''vue''),
            (demoFramework\<lparr>disabled := True, defaultOpen := True\<rparr>, TriggerClick)]))
   \<and> list_all (\<lambda>(r, e). disabled r)
        [(demoTags\<lparr>disabled := True, defaultOpen := True\<rparr>, MMouseDown False),
         (demoTags\<lparr>disabled := True, defaultOpen := True\<rparr>, MItemClick ''go'')]
   \<and> internalOpen (hooks
        (MultiSelect_widget_run (mount (demoTags\<lparr>disabled := True, defaultOpen := True\<rparr>))
           [(demoTags\<lparr>disabled := True, defaultOpen := True\<rparr>, MMouseDown False),
            (demoTags\<lparr>disabled := True, defaultOpen := True\<rparr>, MItemClick ''go'')]))
   \<and> listenerDisabled (mount (demoFramework\<lparr>disabled := True, defaultOpen := True\<rparr>))
   \<and> listenerMouseDown (mount (demoFramework\<lparr>disabled := True, defaultOpen := True\<rparr>)) False
      = (\<lparr>internalOpen = True, inputValue = []\<rparr>, [])
   \<and> \<not> exceedsMaxLength (maxLength (demoFramework\<lparr>disabled := True, defaultOpen := True\<rparr>))
        ''vue''
   \<and> Select_handleValueChange (demoFramework\<lparr>disabled := True, defaultOpen := True\<rparr>)
        \<lparr>internalOpen = True, inputValue = ''v''\<rparr> ''vue''
      = (\<lparr>internalOpen = True, inputValue = []\<rparr>, [OnValueChange ''vue''])"
proof -
  let ?p = "demoFramework\<lparr>disabled := True, defaultOpen := True\<rparr>"
  let ?q = "demoTags\<lparr>disabled := True, defaultOpen := True\<rparr>"
  let ?evs = "[(?p, MouseDown False), (?p, ItemClick ''vue''), (?p, TriggerClick)]"
  let ?mevs = "[(?q, MMouseDown False), (?q, MItemClick ''go'')]"
  have h1: "disabled ?p" by simp
  have h2: "disabled ?q" by simp
  have h4: "list_all (\<lambda>(r, e). disabled r) ?evs" by simp
  have h5: "list_all (\<lambda>(r, e). disabled r) ?mevs" by simp
  have h6: "\<not> exceedsMaxLength (maxLength ?p) ''vue''"
    by (simp add: demo_defs exceedsMaxLength_def)
  note T = C10_disabled_widget_stays_open [OF h1 h2,
      where s = "\<lparr>internalOpen = True, inputValue = ''v''\<rparr>" and evs = ?evs and mevs = ?mevs
      and t = False and v = "''vue''" and w = "mount ?p" and mw = "mount ?q"]
  from T h4 have "internalOpen (hooks (Select_widget_run (mount ?p) ?evs)) = defaultOpen ?p"
    by blast
  then have c1: "internalOpen (hooks (Select_widget_run (mount ?p) ?evs))" by simp
  from T h5 have "internalOpen (hooks (MultiSelect_widget_run (mount ?q) ?mevs)) = defaultOpen ?q"
    by blast
  then have c2: "internalOpen (hooks (MultiSelect_widget_run (mount ?q) ?mevs))" by simp
  from T have c3: "listenerDisabled (mount ?p)" by blast
  from T c3 have "listenerMouseDown (mount ?p) False = (hooks (mount ?p), [])" by blast
  then have c4: "listenerMouseDown (mount ?p) False
      = (\<lparr>internalOpen = True, inputValue = []\<rparr>, [])"
    by (simp add: mount_def initialState_def)
  from T h6 have "Select_handleValueChange ?p \<lparr>internalOpen = True, inputValue = ''v''\<rparr> ''vue''
      = (\<lparr>internalOpen = True, inputValue = ''v''\<rparr>\<lparr>inputValue := []\<rparr>, [OnValueChange ''vue''])"
    by blast
  then have c5: "Select_handleValueChange ?p \<lparr>internalOpen = True, inputValue = ''v''\<rparr> ''vue''
      = (\<lparr>internalOpen = True, inputValue = []\<rparr>, [OnValueChange ''vue''])"
    by simp
  from h1 h2 h4 h5 h6 c1 c2 c3 c4 c5 show ?thesis by blast
qed

end
